theory Spec2Isabelle
  imports Main "HOL-Library.Word"
begin

section \<open>Strings\<close>

text \<open>
  JavaScript strings are modelled as \<^typ>\<open>string\<close>: lists of 8-bit code units.
  \<^verbatim>\<open>String.prototype.trim\<close> strips white space and line terminators from both
  ends. Of the code points ECMAScript counts as such, the ones that fit the 8-bit
  alphabet are TAB, LF, VT, FF, CR, SPACE and NBSP (U+00A0); the others (U+1680,
  U+2000..U+200A, U+2028, U+2029, U+202F, U+205F, U+3000, U+FEFF) lie outside it.
\<close>

definition isWhiteSpace :: "char \<Rightarrow> bool" where
  "isWhiteSpace c = (of_char c \<in> {9, 10, 11, 12, 13, 32, 160 :: nat})"

definition trim :: "string \<Rightarrow> string" where
  "trim s = rev (dropWhile isWhiteSpace (rev (dropWhile isWhiteSpace s)))"

text \<open>
  \<^verbatim>\<open>text.match(/[^.!?]+[.!?]?/g) || [text]\<close>: the global match scans left to right; at
  each position it takes the longest run of characters other than \<^verbatim>\<open>.\<close>, \<^verbatim>\<open>!\<close>, \<^verbatim>\<open>?\<close>
  (at least one) and one terminator after it when there is one; a terminator with no
  run before it matches nothing and is skipped. With no match at all the result is
  \<^verbatim>\<open>null\<close> and the whole text is taken as the single unit.
\<close>

definition isTerminator :: "char \<Rightarrow> bool" where
  "isTerminator c = (c = CHR ''.'' \<or> c = CHR ''!'' \<or> c = CHR ''?'')"

fun matchSentences :: "string \<Rightarrow> string \<Rightarrow> string list" where
  "matchSentences cur [] = (if cur = [] then [] else [cur])"
| "matchSentences cur (c # cs) =
     (if isTerminator c
      then (if cur = [] then matchSentences [] cs
            else (cur @ [c]) # matchSentences [] cs)
      else matchSentences (cur @ [c]) cs)"

definition sentencesOf :: "string \<Rightarrow> string list" where
  "sentencesOf text = (case matchSentences [] text of [] \<Rightarrow> [text] | m # ms \<Rightarrow> m # ms)"

section \<open>Audio accumulator (the \<^verbatim>\<open>audio-stream\<close> handler, index.ts 216-227)\<close>

text \<open>A Node \<^verbatim>\<open>Buffer\<close> is a byte sequence; \<^verbatim>\<open>audioBuffers.get(socket.id)\<close> is a
  \<^verbatim>\<open>Buffer[]\<close>, absent once the socket has disconnected.\<close>

type_synonym Buffer = "8 word list"

definition maxBytes :: int where
  "maxBytes = 1500000"

text \<open>\<^verbatim>\<open>buffer.reduce((acc, b) => acc + b.length, 0)\<close>\<close>

definition totalBytes :: "Buffer list \<Rightarrow> int" where
  "totalBytes buffer = foldl (\<lambda>acc b. acc + int (length b)) 0 buffer"

text \<open>
  \<^verbatim>\<open>while (total > maxBytes && buffer.length > 1) {
    const removed = buffer.shift(); total -= removed ? removed.length : 0; }\<close>
  Under the guard the array is not empty, so \<^verbatim>\<open>shift\<close> returns its first chunk (an
  object, hence truthy).
\<close>

function trimLoop :: "int \<Rightarrow> Buffer list \<Rightarrow> int \<times> Buffer list" where
  "trimLoop tot buffer =
     (if tot > maxBytes \<and> length buffer > 1
      then trimLoop (tot - int (length (hd buffer))) (tl buffer)
      else (tot, buffer))"
  by pat_completeness auto
termination
  by (relation "measure (\<lambda>(tot, buffer). length buffer)") auto

declare trimLoop.simps [simp del]

text \<open>The buffer part of the handler: push the chunk, sum the sizes, trim. Returns the
  new array and the byte count the handler logs.\<close>

definition pushAndTrim :: "Buffer \<Rightarrow> Buffer list \<Rightarrow> int \<times> Buffer list" where
  "pushAndTrim audioChunk buffer =
     (let buffer1 = buffer @ [audioChunk];
          tot = totalBytes buffer1
      in trimLoop tot buffer1)"

definition appendAudio :: "Buffer \<Rightarrow> Buffer list option \<Rightarrow> Buffer list option" where
  "appendAudio audioChunk bufs =
     (case bufs of
        None \<Rightarrow> None
      | Some buffer \<Rightarrow> Some (snd (pushAndTrim audioChunk buffer)))"

section \<open>History pruning (index.ts 493-496)\<close>

datatype Role = User | Assistant

record ConversationMessage =
  role :: Role
  content :: string
  timestamp :: nat

text \<open>\<^verbatim>\<open>history.slice(history.length - maxMessages)\<close>; the start index is positive in
  the branch that slices.\<close>

definition pruneHistory :: "ConversationMessage list \<Rightarrow> nat \<Rightarrow> ConversationMessage list" where
  "pruneHistory history maxMessages =
     (if length history \<le> maxMessages then history
      else drop (length history - maxMessages) history)"

definition defaultMaxMessages :: nat where
  "defaultMaxMessages = 20"


section \<open>Per-socket state\<close>

text \<open>
  The server keeps one global \<^verbatim>\<open>Map\<close> or \<^verbatim>\<open>Set\<close> per kind of state, keyed by
  \<^verbatim>\<open>socket.id\<close>, and every handler reads and writes the entries of its own socket
  only. A \<^emph>\<open>session\<close> is the projection of all of them at one socket id: a
  \<^verbatim>\<open>Map\<close> entry is an option (\<open>None\<close>: no entry), membership in a \<^verbatim>\<open>Set\<close> a
  boolean. Socket ids are unique per connection, so the connection handler runs once
  per session.
\<close>

datatype InputSource = Voice | Text

record ConversationPreferences =
  targetLanguage :: string
  lastDetectedLanguage :: "string option"

text \<open>An \<^verbatim>\<open>AbortController\<close> is identified by a handle.\<close>

record InFlightControllers =
  llm :: "nat option"
  stt :: "nat option"
  tts :: "nat option"

record ChatGPTCallState =
  isWaiting :: bool
  lastCallTime :: nat
  pendingInput :: "string option"

text \<open>What \<^verbatim>\<open>socket.emit\<close> sends. The \<^verbatim>\<open>timestamp: new Date().toISOString()\<close> field that
  every payload carries is left out; message ids are the clock readings they are
  printed from.\<close>

datatype ServerEvent =
    ProcessingComplete
  | ErrorEvent string
  | AiTyping bool
  | LanguageUpdated string
  | MessageReceived nat string bool
  | AiMessageStart nat
  | AiToken nat string
  | AiMessageDone nat string
  | AiAudioChunk nat Buffer
  | AiAudioDone nat
  | AiResponse nat string

text \<open>
  Besides the map entries a session has the objects that outlive them:
  \<^item> \<open>callState\<close> is the one \<^verbatim>\<open>ChatGPTCallState\<close> object the connection handler
    allocates. The map entry, every wait-window timer callback and every suspended
    \<^verbatim>\<open>triggerChatGPTWithWait\<close> hold a reference to it; \<open>chatGPTCallStates\<close> says
    whether the map still has the entry.
  \<^item> \<open>waitTimeouts\<close> are the deadlines of the armed \<^verbatim>\<open>setTimeout\<close>s of
    \<^verbatim>\<open>triggerChatGPTWithWait\<close> (their handles are dropped by the code), \<open>sttTimeouts\<close>
    the armed debounce timers of \<^verbatim>\<open>schedulePartialTranscription\<close> as (handle, deadline).
  \<^item> \<open>aborted\<close> lists the controllers on which \<^verbatim>\<open>abort()\<close> was called, \<open>emitted\<close> the
    events sent to the socket, in order.
  \<^item> \<open>inFlightCalls\<close> are the inputs of the calls of \<^verbatim>\<open>processWithChatGPT\<close> that a
    trigger has started and that have not returned yet; \<open>downstreamCalls\<close> logs every
    such call with its start time.
\<close>

record session =
  audioBuffers :: "Buffer list option"
  processingSockets :: bool
  sttDebounceTimers :: "nat option"
  sttInProgress :: bool
  conversationHistory :: "ConversationMessage list option"
  conversationPreferences :: "ConversationPreferences option"
  lastInputSource :: "InputSource option"
  controllersBySocket :: "InFlightControllers option"
  chatGPTCallStates :: bool
  conversationVersions :: "nat option"
  callState :: ChatGPTCallState
  waitTimeouts :: "nat list"
  sttTimeouts :: "(nat \<times> nat) list"
  fresh :: nat
  aborted :: "nat list"
  emitted :: "ServerEvent list"
  inFlightCalls :: "string list"
  downstreamCalls :: "(nat \<times> string) list"

definition emit :: "ServerEvent \<Rightarrow> session \<Rightarrow> session" where
  "emit e s = s\<lparr>emitted := emitted s @ [e]\<rparr>"

definition defaultPreferences :: ConversationPreferences where
  "defaultPreferences = \<lparr>targetLanguage = ''auto'', lastDetectedLanguage = None\<rparr>"

definition noControllers :: InFlightControllers where
  "noControllers = \<lparr>llm = None, stt = None, tts = None\<rparr>"

text \<open>\<^verbatim>\<open>io.on('connection', ...)\<close>, index.ts 190-205.\<close>

definition onConnection :: session where
  "onConnection =
     \<lparr>audioBuffers = Some [],
      processingSockets = False,
      sttDebounceTimers = None,
      sttInProgress = False,
      conversationHistory = Some [],
      conversationPreferences = Some defaultPreferences,
      lastInputSource = Some Text,
      controllersBySocket = None,
      chatGPTCallStates = True,
      conversationVersions = Some 0,
      callState = \<lparr>isWaiting = False, lastCallTime = 0, pendingInput = None\<rparr>,
      waitTimeouts = [],
      sttTimeouts = [],
      fresh = 0,
      aborted = [],
      emitted = [],
      inFlightCalls = [],
      downstreamCalls = []\<rparr>"

text \<open>\<^verbatim>\<open>conversationVersions.get(socketId) || 0\<close>: a missing entry reads as 0 (and so
  does a stored 0). The counter is a JavaScript number, exact below \<open>2 ^ 53\<close>.\<close>

definition getVersion :: "session \<Rightarrow> nat" where
  "getVersion s = (case conversationVersions s of None \<Rightarrow> 0 | Some v \<Rightarrow> v)"

text \<open>\<^verbatim>\<open>abortInFlightControllers\<close>, index.ts 83-90.\<close>

definition handles :: "nat option \<Rightarrow> nat list" where
  "handles c = (case c of None \<Rightarrow> [] | Some h \<Rightarrow> [h])"

definition abortInFlightControllers :: "session \<Rightarrow> session" where
  "abortInFlightControllers s =
     (case controllersBySocket s of
        None \<Rightarrow> s
      | Some c \<Rightarrow>
          s\<lparr>aborted := aborted s @ handles (llm c) @ handles (stt c) @ handles (tts c),
            controllersBySocket := Some noControllers\<rparr>)"

text \<open>\<^verbatim>\<open>socket.on('interrupt', ...)\<close>, index.ts 245-253.\<close>

definition onInterrupt :: "session \<Rightarrow> session" where
  "onInterrupt s =
     emit (AiTyping False)
       (abortInFlightControllers (s\<lparr>conversationVersions := Some (getVersion s + 1)\<rparr>))"

text \<open>\<^verbatim>\<open>socket.on('set-language', ...)\<close>, index.ts 275-286. The argument is
  \<^verbatim>\<open>data?.language\<close>: \<open>None\<close> when the payload or its field is missing.\<close>

definition onSetLanguage :: "string option \<Rightarrow> session \<Rightarrow> session" where
  "onSetLanguage language s =
     (let lang = trim (case language of
                         None \<Rightarrow> ''auto''
                       | Some l \<Rightarrow> if l = [] then ''auto'' else l);
          prefs = (case conversationPreferences s of
                     None \<Rightarrow> defaultPreferences
                   | Some p \<Rightarrow> p);
          prefs1 = prefs\<lparr>targetLanguage := (if lang = [] then ''auto'' else lang)\<rparr>
      in emit (LanguageUpdated (targetLanguage prefs1))
           (s\<lparr>conversationPreferences := Some prefs1\<rparr>))"

text \<open>\<^verbatim>\<open>socket.on('start-recording', ...)\<close>, index.ts 289-298.\<close>

definition onStartRecording :: "session \<Rightarrow> session" where
  "onStartRecording s = s\<lparr>audioBuffers := Some []\<rparr>"

text \<open>\<^verbatim>\<open>socket.on('disconnect', ...)\<close>, index.ts 306-314: four \<^verbatim>\<open>delete\<close>s.\<close>

definition onDisconnect :: "session \<Rightarrow> session" where
  "onDisconnect s =
     s\<lparr>audioBuffers := None,
       conversationHistory := None,
       chatGPTCallStates := False,
       conversationVersions := None\<rparr>"

text \<open>\<^verbatim>\<open>schedulePartialTranscription\<close>, index.ts 421-424 and 475: cancel the timer whose
  handle is stored, arm a new one 350 ms ahead and store its handle.\<close>

definition clearTimeout :: "nat \<Rightarrow> session \<Rightarrow> session" where
  "clearTimeout h s = s\<lparr>sttTimeouts := filter (\<lambda>(h', deadline). h' \<noteq> h) (sttTimeouts s)\<rparr>"

definition schedulePartialTranscription :: "nat \<Rightarrow> session \<Rightarrow> session" where
  "schedulePartialTranscription now s =
     (let s1 = (case sttDebounceTimers s of None \<Rightarrow> s | Some existing \<Rightarrow> clearTimeout existing s);
          timer = fresh s1
      in s1\<lparr>sttTimeouts := sttTimeouts s1 @ [(timer, now + 350)],
            sttDebounceTimers := Some timer,
            fresh := timer + 1\<rparr>)"

text \<open>\<^verbatim>\<open>socket.on('audio-stream', ...)\<close> for a chunk with \<^verbatim>\<open>isFinal\<close> false, index.ts
  216-237: the chunk is appended and trimmed, then a partial transcription is scheduled.\<close>

definition onAudioStreamPartial :: "nat \<Rightarrow> Buffer \<Rightarrow> session \<Rightarrow> session" where
  "onAudioStreamPartial now audioChunk s =
     schedulePartialTranscription now (s\<lparr>audioBuffers := appendAudio audioChunk (audioBuffers s)\<rparr>)"

text \<open>The handlers that run to completion without awaiting anything; these are the ones
  interleaved at the suspension points of a turn below.\<close>

datatype inbound = Interrupt | SetLanguage "string option" | StartRecording | StopRecording | Disconnect

fun handleInbound :: "inbound \<Rightarrow> session \<Rightarrow> session" where
  "handleInbound Interrupt s = onInterrupt s"
| "handleInbound (SetLanguage language) s = onSetLanguage language s"
| "handleInbound StartRecording s = onStartRecording s"
| "handleInbound StopRecording s = s"
| "handleInbound Disconnect s = onDisconnect s"

definition handleAll :: "inbound list \<Rightarrow> session \<Rightarrow> session" where
  "handleAll evs s = fold handleInbound evs s"

section \<open>One turn: \<^verbatim>\<open>processWithChatGPT\<close> (index.ts 499-671)\<close>

text \<open>
  The function is \<^verbatim>\<open>async\<close>: it runs without interruption up to an \<^verbatim>\<open>await\<close>, and while
  it is suspended there the event loop runs other handlers of the same socket. The
  environment of a turn fixes what the outside world does: the clock readings, the
  outcome of each external call, and the handlers that run at each suspension point.
  The handlers interleaved here are the synchronous ones of \<^typ>\<open>inbound\<close>; the
  \<^verbatim>\<open>text-message\<close> and \<^verbatim>\<open>audio-stream\<close> handlers touch neither the version, the history
  nor the language preference, and never emit a token.
\<close>

datatype ChatRole = SystemMsg | UserMsg | AssistantMsg

fun chatRole :: "Role \<Rightarrow> ChatRole" where
  "chatRole User = UserMsg"
| "chatRole Assistant = AssistantMsg"

type_synonym prompt = "(ChatRole \<times> string) list"

text \<open>What the stream yields at one \<^verbatim>\<open>for await\<close> step: a part with its
  \<^verbatim>\<open>choices[0].delta.content || ''\<close>, or an exception.\<close>

datatype streamItem = Part string | StreamThrows

text \<open>\<^verbatim>\<open>await openai.chat.completions.create(...)\<close> either rejects or gives a stream: its
  items, each with the handlers that run while it is awaited, and the handlers that run
  while the end of the stream is awaited.\<close>

datatype generation = CreateRejects | Streams "(inbound list \<times> streamItem) list" "inbound list"

record turnEnv =
  systemPromptEnv :: "string option"
  userTime :: nat
  createAwait :: "inbound list"
  generate :: "prompt \<Rightarrow> generation"
  aiMessageTime :: nat
  aiTime :: nat
  synthesize :: "string \<Rightarrow> Buffer option"
  ttsAwaits :: "inbound list list"

definition defaultSystemPrompt :: string where
  "defaultSystemPrompt =
     ''You are a helpful and friendly AI assistant. Keep responses concise and on-topic.''"

text \<open>\<^verbatim>\<open>process.env.SYSTEM_PROMPT || "You are ..."\<close>: an unset or empty variable gives the
  default.\<close>

definition systemPrompt :: "string option \<Rightarrow> string" where
  "systemPrompt env =
     (case env of None \<Rightarrow> defaultSystemPrompt
      | Some p \<Rightarrow> if p = [] then defaultSystemPrompt else p)"

text \<open>index.ts 545: \<^verbatim>\<open>prefs.targetLanguage === 'auto' ? (prefs.lastDetectedLanguage || 'auto')
  : prefs.targetLanguage\<close>\<close>

definition effectiveLanguage :: "ConversationPreferences \<Rightarrow> string" where
  "effectiveLanguage prefs =
     (if targetLanguage prefs = ''auto''
      then (case lastDetectedLanguage prefs of
              None \<Rightarrow> ''auto''
            | Some l \<Rightarrow> if l = [] then ''auto'' else l)
      else targetLanguage prefs)"

text \<open>index.ts 547-549.\<close>

definition languageDirective :: "ConversationPreferences \<Rightarrow> string" where
  "languageDirective prefs =
     (if effectiveLanguage prefs = ''auto''
      then ''Respond in the same language as the user input.''
      else ''Respond in '' @ effectiveLanguage prefs @ ''.'')"

text \<open>index.ts 551-557; the two \<^verbatim>\<open>\n\<close> of the template are line feeds.\<close>

definition buildMessages ::
  "string option \<Rightarrow> ConversationPreferences \<Rightarrow> ConversationMessage list \<Rightarrow> prompt" where
  "buildMessages env prefs history =
     (SystemMsg, systemPrompt env @ [CHR 0x0A, CHR 0x0A] @ languageDirective prefs)
       # map (\<lambda>msg. (chatRole (role msg), content msg)) history"

text \<open>
  index.ts 505-568, up to the first \<^verbatim>\<open>await\<close>: record the user message, notify the
  client, build the prompt, capture the version, register the controller. The result
  is the captured version, the local \<^verbatim>\<open>history\<close> array, the prompt and the state.
\<close>

definition beginTurn ::
  "turnEnv \<Rightarrow> string \<Rightarrow> session \<Rightarrow> nat \<times> ConversationMessage list \<times> prompt \<times> session" where
  "beginTurn env userInput s =
     (let history = (case conversationHistory s of None \<Rightarrow> [] | Some h \<Rightarrow> h)
                      @ [\<lparr>role = User, content = userInput, timestamp = userTime env\<rparr>];
          s1 = s\<lparr>conversationHistory := Some history\<rparr>;
          isVoice = ((case lastInputSource s1 of None \<Rightarrow> Text | Some src \<Rightarrow> src) = Voice);
          s2 = emit (MessageReceived (userTime env) userInput isVoice) s1;
          s3 = emit (AiTyping True) s2;
          prefs = (case conversationPreferences s3 of
                     None \<Rightarrow> defaultPreferences
                   | Some p \<Rightarrow> p);
          messages = buildMessages (systemPromptEnv env) prefs history;
          versionAtStart = getVersion s3;
          existing = (case controllersBySocket s3 of None \<Rightarrow> noControllers | Some c \<Rightarrow> c);
          s4 = s3\<lparr>controllersBySocket := Some (existing\<lparr>llm := Some (fresh s3)\<rparr>),
                  fresh := fresh s3 + 1\<rparr>
      in (versionAtStart, history, messages, s4))"

datatype loopResult = Ended string | Stale | Threw

text \<open>index.ts 585-602, the \<^verbatim>\<open>for await\<close> loop: at each step the stream is awaited
  (handlers run), then the version is compared with the captured one, then a non-empty
  token is appended and emitted.\<close>

fun streamLoop ::
  "nat \<Rightarrow> nat \<Rightarrow> string \<Rightarrow> (inbound list \<times> streamItem) list \<Rightarrow> session \<Rightarrow> loopResult \<times> session" where
  "streamLoop versionAtStart aiMessageId aiResponse [] s = (Ended aiResponse, s)"
| "streamLoop versionAtStart aiMessageId aiResponse ((evs, StreamThrows) # rest) s =
     (Threw, handleAll evs s)"
| "streamLoop versionAtStart aiMessageId aiResponse ((evs, Part token) # rest) s =
     (let s1 = handleAll evs s in
      if getVersion s1 \<noteq> versionAtStart then (Stale, emit (AiTyping False) s1)
      else if token \<noteq> []
      then streamLoop versionAtStart aiMessageId (aiResponse @ token) rest
             (emit (AiToken aiMessageId token) s1)
      else streamLoop versionAtStart aiMessageId aiResponse rest s1)"

text \<open>\<^verbatim>\<open>convertTextToSpeech\<close>, index.ts 674-704: a failed call gives
  \<^verbatim>\<open>Buffer.alloc(0)\<close>.\<close>

definition convertTextToSpeech :: "(string \<Rightarrow> Buffer option) \<Rightarrow> string \<Rightarrow> Buffer" where
  "convertTextToSpeech synth text = (case synth text of None \<Rightarrow> [] | Some b \<Rightarrow> b)"

text \<open>
  index.ts 712-731, the loop of \<^verbatim>\<open>streamTextToSpeech\<close>. A blank unit is skipped
  (\<^verbatim>\<open>continue\<close>). Otherwise \<^verbatim>\<open>currentVersion\<close> is read from the map and compared with the
  map again (\<^verbatim>\<open>break\<close> when they differ), the synthesis is awaited (handlers run), and
  the chunk is emitted. The schedule gives the handlers of each awaited synthesis, in
  order; past its end none run.
\<close>

fun ttsLoop ::
  "(string \<Rightarrow> Buffer option) \<Rightarrow> nat \<Rightarrow> string list \<Rightarrow> inbound list list \<Rightarrow> session \<Rightarrow> session" where
  "ttsLoop synth messageId [] sched s = s"
| "ttsLoop synth messageId (sentence # rest) sched s =
     (if trim sentence = [] then ttsLoop synth messageId rest sched s
      else
        let currentVersion = getVersion s in
        if getVersion s \<noteq> currentVersion then s
        else
          let s1 = handleAll (case sched of [] \<Rightarrow> [] | evs # later \<Rightarrow> evs) s;
              buffer = convertTextToSpeech synth (trim sentence)
          in ttsLoop synth messageId rest (tl sched)
               (emit (AiAudioChunk messageId buffer) s1))"

definition streamTextToSpeech ::
  "(string \<Rightarrow> Buffer option) \<Rightarrow> string \<Rightarrow> nat \<Rightarrow> inbound list list \<Rightarrow> session \<Rightarrow> session" where
  "streamTextToSpeech synth text messageId sched s =
     emit (AiAudioDone messageId) (ttsLoop synth messageId (sentencesOf text) sched s)"

text \<open>index.ts 610-649, after the stream has ended.\<close>

definition finishTurn ::
  "turnEnv \<Rightarrow> ConversationMessage list \<Rightarrow> string \<Rightarrow> session \<Rightarrow> session" where
  "finishTurn env history aiResponse s =
     (let history1 = history @ [\<lparr>role = Assistant, content = aiResponse, timestamp = aiTime env\<rparr>];
          pruned = pruneHistory history1 defaultMaxMessages;
          s1 = s\<lparr>conversationHistory := Some pruned\<rparr>;
          s2 = emit (AiTyping False) s1;
          s3 = emit (AiMessageDone (aiMessageTime env) aiResponse) s2;
          s4 = streamTextToSpeech (synthesize env) aiResponse (aiMessageTime env) (ttsAwaits env) s3
      in emit (AiResponse (aiMessageTime env) aiResponse) s4)"

text \<open>index.ts 656-670, the \<^verbatim>\<open>catch\<close> block.\<close>

definition catchBlock :: "session \<Rightarrow> session" where
  "catchBlock s = emit (ErrorEvent ''Failed to get AI response'') (emit (AiTyping False) s)"

datatype outcome = Completed | Aborted | Failed

definition processWithChatGPT :: "turnEnv \<Rightarrow> string \<Rightarrow> session \<Rightarrow> outcome \<times> session" where
  "processWithChatGPT env userInput s =
     (case beginTurn env userInput s of
        (versionAtStart, history, messages, s1) \<Rightarrow>
          let s2 = handleAll (createAwait env) s1 in
          (case generate env messages of
             CreateRejects \<Rightarrow> (Failed, catchBlock s2)
           | Streams parts endAwait \<Rightarrow>
               let s3 = emit (AiMessageStart (aiMessageTime env)) s2 in
               (case streamLoop versionAtStart (aiMessageTime env) [] parts s3 of
                  (Stale, s4) \<Rightarrow> (Aborted, s4)
                | (Threw, s4) \<Rightarrow> (Failed, catchBlock s4)
                | (Ended aiResponse, s4) \<Rightarrow>
                    (Completed, finishTurn env history aiResponse (handleAll endAwait s4)))))"

section \<open>The call coalescer: \<^verbatim>\<open>triggerChatGPTWithWait\<close> (index.ts 104-168)\<close>

definition waitTime :: nat where
  "waitTime = 400"

text \<open>
  One call of \<^verbatim>\<open>triggerChatGPTWithWait\<close> at clock reading \<open>now\<close>, up to the point where it
  returns or suspends in \<^verbatim>\<open>await processWithChatGPT(...)\<close>. Starting that call is
  recorded in \<open>inFlightCalls\<close> and \<open>downstreamCalls\<close>; what the call itself does is the
  previous section.
\<close>

definition triggerChatGPTWithWait :: "nat \<Rightarrow> string \<Rightarrow> bool \<Rightarrow> session \<Rightarrow> session" where
  "triggerChatGPTWithWait now userInput queueOnly s =
     (let trimmedInput = trim userInput in
      if trimmedInput = [] then emit ProcessingComplete s
      else if \<not> chatGPTCallStates s then s
      else if queueOnly then
        (let s1 = s\<lparr>callState := (callState s)\<lparr>pendingInput := Some trimmedInput\<rparr>\<rparr> in
         if \<not> isWaiting (callState s1)
         then s1\<lparr>callState := (callState s1)\<lparr>isWaiting := True, lastCallTime := now\<rparr>,
                 waitTimeouts := waitTimeouts s1 @ [now + waitTime]\<rparr>
         else s1)
      else if \<not> isWaiting (callState s)
      then s\<lparr>callState := (callState s)\<lparr>isWaiting := True, lastCallTime := now\<rparr>,
             inFlightCalls := inFlightCalls s @ [trimmedInput],
             downstreamCalls := downstreamCalls s @ [(now, trimmedInput)]\<rparr>
      else s\<lparr>callState := (callState s)\<lparr>pendingInput := Some trimmedInput\<rparr>\<rparr>)"

text \<open>The awaited \<^verbatim>\<open>processWithChatGPT\<close> returns at \<open>now\<close> and the trigger resumes at index.ts
  154: it arms the wait-window timer. (The call catches its own exceptions, so it
  always returns.)\<close>

definition callReturns :: "nat \<Rightarrow> session \<Rightarrow> session" where
  "callReturns now s =
     (case inFlightCalls s of
        [] \<Rightarrow> s
      | input # others \<Rightarrow>
          s\<lparr>inFlightCalls := others, waitTimeouts := waitTimeouts s @ [now + waitTime]\<rparr>)"

text \<open>A wait-window timer whose deadline has passed fires (index.ts 134-141 and 154-162,
  the same callback): \<^verbatim>\<open>if (state.pendingInput)\<close> is false for \<^verbatim>\<open>null\<close> and for the empty
  string.\<close>

definition waitTimerFires :: "nat \<Rightarrow> session \<Rightarrow> session" where
  "waitTimerFires now s =
     (case List.find (\<lambda>deadline. deadline \<le> now) (waitTimeouts s) of
        None \<Rightarrow> s
      | Some deadline \<Rightarrow>
          let s1 = s\<lparr>waitTimeouts := remove1 deadline (waitTimeouts s),
                     callState := (callState s)\<lparr>isWaiting := False\<rparr>\<rparr> in
          (case pendingInput (callState s1) of
             None \<Rightarrow> s1
           | Some pending \<Rightarrow>
               if pending = [] then s1
               else triggerChatGPTWithWait now pending False
                      (s1\<lparr>callState := (callState s1)\<lparr>pendingInput := None\<rparr>\<rparr>)))"

text \<open>What can happen to the coalescer of one session, each with the clock reading at
  which it happens.\<close>

datatype coalescerEvent =
    Trigger nat string bool
  | CallReturns nat
  | WaitTimerFires nat
  | SocketDisconnects

fun coalescerStep :: "session \<Rightarrow> coalescerEvent \<Rightarrow> session" where
  "coalescerStep s (Trigger now userInput queueOnly) = triggerChatGPTWithWait now userInput queueOnly s"
| "coalescerStep s (CallReturns now) = callReturns now s"
| "coalescerStep s (WaitTimerFires now) = waitTimerFires now s"
| "coalescerStep s SocketDisconnects = onDisconnect s"

definition coalescerRun :: "session \<Rightarrow> coalescerEvent list \<Rightarrow> session" where
  "coalescerRun s evs = foldl coalescerStep s evs"

section \<open>Vocabulary of the properties\<close>

fun isAiToken :: "ServerEvent \<Rightarrow> bool" where
  "isAiToken (AiToken aiMessageId token) = True"
| "isAiToken e = False"

text \<open>The handlers that run while the items of a stream are awaited, and the non-empty
  tokens the items carry.\<close>

definition awaited :: "(inbound list \<times> streamItem) list \<Rightarrow> inbound list" where
  "awaited parts = concat (map fst parts)"

fun tokensOf :: "(inbound list \<times> streamItem) list \<Rightarrow> string list" where
  "tokensOf [] = []"
| "tokensOf ((evs, Part token) # rest) =
     (if token \<noteq> [] then token # tokensOf rest else tokensOf rest)"
| "tokensOf ((evs, StreamThrows) # rest) = tokensOf rest"

text \<open>The prompt a turn passes to the language model, and every handler the turn's
  environment has running at one of its suspension points.\<close>

definition turnPrompt :: "turnEnv \<Rightarrow> string \<Rightarrow> session \<Rightarrow> prompt" where
  "turnPrompt env userInput s =
     (case beginTurn env userInput s of (versionAtStart, history, messages, s1) \<Rightarrow> messages)"

fun scheduleOf :: "generation \<Rightarrow> inbound list" where
  "scheduleOf CreateRejects = []"
| "scheduleOf (Streams parts endAwait) = awaited parts @ endAwait"

definition turnHandlers :: "turnEnv \<Rightarrow> string \<Rightarrow> session \<Rightarrow> inbound list" where
  "turnHandlers env userInput s =
     createAwait env @ scheduleOf (generate env (turnPrompt env userInput s))
       @ concat (ttsAwaits env)"

text \<open>The history a turn finds, and the two messages it appends.\<close>

definition storedHistory :: "session \<Rightarrow> ConversationMessage list" where
  "storedHistory s = (case conversationHistory s of None \<Rightarrow> [] | Some h \<Rightarrow> h)"

definition userMessage :: "turnEnv \<Rightarrow> string \<Rightarrow> ConversationMessage" where
  "userMessage env userInput = \<lparr>role = User, content = userInput, timestamp = userTime env\<rparr>"

definition assistantMessage :: "turnEnv \<Rightarrow> string \<Rightarrow> ConversationMessage" where
  "assistantMessage env aiResponse = \<lparr>role = Assistant, content = aiResponse, timestamp = aiTime env\<rparr>"

text \<open>A concrete environment: the model streams the two tokens of \<open>One. Two.\<close>, the
  synthesis of a unit returns one byte per character, and no handler runs meanwhile.\<close>

definition quietEnv :: turnEnv where
  "quietEnv =
     \<lparr>systemPromptEnv = None,
      userTime = 1000,
      createAwait = [],
      generate = (\<lambda>messages. Streams [([], Part ''One.''), ([], Part '' Two.'')] []),
      aiMessageTime = 1500,
      aiTime = 2000,
      synthesize = (\<lambda>unit. Some (map (\<lambda>c. 1) unit)),
      ttsAwaits = []\<rparr>"

text \<open>The same, with an interrupt handled while the second token is awaited; and with
  an interrupt handled while the first unit of the reply is synthesized.\<close>

definition bargeInEnv :: turnEnv where
  "bargeInEnv =
     quietEnv\<lparr>generate :=
       (\<lambda>messages. Streams [([], Part ''Once''), ([Interrupt], Part '' upon''),
                            ([], Part '' a time.'')] [])\<rparr>"

text \<open>With an interrupt handled while the call that opens the stream is pending; and
  with a stream that throws after its first token.\<close>

definition earlyBargeInEnv :: turnEnv where
  "earlyBargeInEnv = quietEnv\<lparr>createAwait := [Interrupt]\<rparr>"

definition brokenStreamEnv :: turnEnv where
  "brokenStreamEnv =
     quietEnv\<lparr>generate := (\<lambda>messages. Streams [([], Part ''One.''), ([], StreamThrows)] [])\<rparr>"

definition lateBargeInEnv :: turnEnv where
  "lateBargeInEnv = quietEnv\<lparr>ttsAwaits := [[Interrupt]]\<rparr>"

text \<open>The invariant of the coalescer: the session is waiting exactly when one call is in
  flight or one wait-window timer is armed (never both, never two), and a pending input
  is a trimmed, non-empty string held only while waiting.\<close>

definition coalescerInv :: "session \<Rightarrow> bool" where
  "coalescerInv s =
     (length (inFlightCalls s) + length (waitTimeouts s) = (if isWaiting (callState s) then 1 else 0)
      \<and> (case pendingInput (callState s) of
            None \<Rightarrow> True
          | Some p \<Rightarrow> isWaiting (callState s) \<and> p \<noteq> [] \<and> trim p = p))"

section \<open>Properties\<close>

subsection \<open>Audio accumulator\<close>

lemma totalBytes_Cons: "totalBytes (b # xs) = int (length b) + totalBytes xs"
proof -
  have "foldl (\<lambda>acc b. acc + int (length b)) a xs = a + foldl (\<lambda>acc b. acc + int (length b)) 0 xs" for a
    by (induction xs rule: rev_induct) simp_all
  from this[of "0 + int (length b)"] show ?thesis unfolding totalBytes_def
    by simp
qed

lemma trimLoop_step:
  "tot > maxBytes \<Longrightarrow> trimLoop tot (b # c # rest) = trimLoop (tot - int (length b)) (c # rest)"
  by (subst trimLoop.simps) simp

lemma trimLoop_stop:
  "\<not> (tot > maxBytes \<and> length buffer > 1) \<Longrightarrow> trimLoop tot buffer = (tot, buffer)"
  by (subst trimLoop.simps) (simp only: if_False)

lemma trimLoop_total:
  "tot = totalBytes buffer \<Longrightarrow> fst (trimLoop tot buffer) = totalBytes (snd (trimLoop tot buffer))"
proof (induction buffer arbitrary: tot)
  case Nil
  then show ?case by (simp add: trimLoop_stop)
next
  case (Cons b buffer)
  show ?case
  proof (cases "tot > maxBytes \<and> length (b # buffer) > 1")
    case True
    then obtain c rest where br: "buffer = c # rest" by (cases buffer) auto
    have "tot - int (length b) = totalBytes buffer"
      using Cons.prems by (simp add: totalBytes_Cons)
    from Cons.IH[OF this] show ?thesis
      using True br by (simp add: trimLoop_step)
  next
    case False
    then show ?thesis using Cons.prems by (simp add: trimLoop_stop)
  qed
qed

lemma trimLoop_bound:
  "tot = totalBytes buffer \<Longrightarrow>
     totalBytes (snd (trimLoop tot buffer)) \<le> maxBytes \<or> length (snd (trimLoop tot buffer)) \<le> 1"
proof (induction buffer arbitrary: tot)
  case Nil
  then show ?case by (simp add: trimLoop_stop)
next
  case (Cons b buffer)
  show ?case
  proof (cases "tot > maxBytes \<and> length (b # buffer) > 1")
    case True
    then obtain c rest where br: "buffer = c # rest" by (cases buffer) auto
    have "tot - int (length b) = totalBytes buffer"
      using Cons.prems by (simp add: totalBytes_Cons)
    from Cons.IH[OF this] show ?thesis
      using True br by (simp add: trimLoop_step)
  next
    case False
    then show ?thesis using Cons.prems by (auto simp add: trimLoop_stop)
  qed
qed

lemma trimLoop_drop:
  "\<exists>k. snd (trimLoop tot buffer) = drop k buffer \<and> k \<le> length buffer - 1"
proof (induction buffer arbitrary: tot)
  case Nil
  then show ?case by (simp add: trimLoop_stop)
next
  case (Cons b buffer)
  show ?case
  proof (cases "tot > maxBytes \<and> length (b # buffer) > 1")
    case True
    then obtain c rest where br: "buffer = c # rest" by (cases buffer) auto
    from Cons.IH[of "tot - int (length b)"] obtain k where
      k: "snd (trimLoop (tot - int (length b)) buffer) = drop k buffer" "k \<le> length buffer - 1"
      by blast
    have "snd (trimLoop tot (b # buffer)) = drop (Suc k) (b # buffer)"
      using True br k by (simp add: trimLoop_step)
    moreover have "Suc k \<le> length (b # buffer) - 1" using k br by simp
    ultimately show ?thesis by blast
  next
    case False
    then have "snd (trimLoop tot (b # buffer)) = drop 0 (b # buffer)"
      by (simp add: trimLoop_stop)
    then show ?thesis by (intro exI[of _ 0]) simp
  qed
qed


text \<open>
  C5 (as amended). After any append to an existing buffer: the buffered total is at most
  the ceiling of 1,500,000 bytes, or the buffer holds the appended chunk alone (which
  then exceeds the ceiling by itself); the new buffer is the old one with whole chunks
  removed from the front and the appended chunk at its end, so the most recent chunk is
  always retained; the byte count the handler logs is the total of what is kept. With no
  buffer entry for the socket nothing is stored. The property holds from every buffer,
  hence after every append of any sequence.
\<close>

theorem audio_append_trimmed:
  "(totalBytes (snd (pushAndTrim audioChunk buffer)) \<le> maxBytes
      \<or> snd (pushAndTrim audioChunk buffer) = [audioChunk])
   \<and> (\<exists>k. k \<le> length buffer
          \<and> snd (pushAndTrim audioChunk buffer) = drop k buffer @ [audioChunk])
   \<and> fst (pushAndTrim audioChunk buffer) = totalBytes (snd (pushAndTrim audioChunk buffer))
   \<and> appendAudio audioChunk (Some buffer) = Some (snd (pushAndTrim audioChunk buffer))
   \<and> appendAudio audioChunk None = None"
proof -
  let ?b1 = "buffer @ [audioChunk]"
  let ?r = "snd (pushAndTrim audioChunk buffer)"
  have r: "?r = snd (trimLoop (totalBytes ?b1) ?b1)"
    by (simp add: pushAndTrim_def Let_def)
  obtain k where k: "?r = drop k ?b1" "k \<le> length ?b1 - 1"
    using trimLoop_drop[of "totalBytes ?b1" ?b1] r by auto
  then have kb: "k \<le> length buffer" by simp
  then have shape: "?r = drop k buffer @ [audioChunk]" using k by simp
  have "totalBytes ?r \<le> maxBytes \<or> length ?r \<le> 1"
    using trimLoop_bound[of "totalBytes ?b1" ?b1] r by simp
  then have bound: "totalBytes ?r \<le> maxBytes \<or> ?r = [audioChunk]"
    using shape by auto
  have tot: "fst (pushAndTrim audioChunk buffer) = totalBytes ?r"
    using trimLoop_total[of "totalBytes ?b1" ?b1] by (simp add: pushAndTrim_def Let_def)
  show ?thesis using bound shape kb tot by (auto simp add: appendAudio_def)
qed

text \<open>
  C5 as stated fails: appending one chunk of 1,500,001 bytes to an empty buffer keeps
  that chunk (the loop runs only while more than one chunk is buffered), so the total
  exceeds the ceiling.
\<close>

theorem oversized_chunk_exceeds_ceiling:
  "appendAudio (replicate 1500001 0) (Some []) = Some [replicate 1500001 0]
   \<and> totalBytes [replicate 1500001 0] = 1500001
   \<and> \<not> totalBytes [replicate 1500001 0] \<le> maxBytes"
  by (simp add: appendAudio_def pushAndTrim_def trimLoop_stop Let_def totalBytes_def maxBytes_def)

subsection \<open>Strings\<close>

lemma trim_Nil_iff: "trim s = [] \<longleftrightarrow> list_all isWhiteSpace s"
proof -
  have "trim s = [] \<longleftrightarrow> dropWhile isWhiteSpace (rev (dropWhile isWhiteSpace s)) = []"
    by (simp add: trim_def)
  also have "\<dots> \<longleftrightarrow> (\<forall>c \<in> set (dropWhile isWhiteSpace s). isWhiteSpace c)"
    by (simp add: dropWhile_eq_Nil_conv)
  also have "\<dots> \<longleftrightarrow> dropWhile isWhiteSpace s = []"
  proof
    assume a: "\<forall>c \<in> set (dropWhile isWhiteSpace s). isWhiteSpace c"
    show "dropWhile isWhiteSpace s = []"
    proof (rule ccontr)
      assume ne: "dropWhile isWhiteSpace s \<noteq> []"
      then have "\<not> isWhiteSpace (hd (dropWhile isWhiteSpace s))" by (rule hd_dropWhile)
      moreover have "hd (dropWhile isWhiteSpace s) \<in> set (dropWhile isWhiteSpace s)"
        using ne by simp
      ultimately show False using a by blast
    qed
  next
    assume e: "dropWhile isWhiteSpace s = []"
    show "\<forall>c \<in> set (dropWhile isWhiteSpace s). isWhiteSpace c"
      unfolding e by simp
  qed
  also have "\<dots> \<longleftrightarrow> list_all isWhiteSpace s"
    by (simp add: dropWhile_eq_Nil_conv list_all_iff)
  finally show ?thesis .
qed

lemma trim_auto: "trim ''auto'' = ''auto''"
  by (simp add: trim_def isWhiteSpace_def)

subsection \<open>Language preference\<close>

text \<open>
  C10. A set-language request stores \<open>auto\<close> when the language is absent, empty or made
  of white space only, and the trimmed string otherwise; the last detected language
  keeps its value (none, when the socket had no preferences); one
  \<^verbatim>\<open>language-updated\<close> event carrying the stored preference is emitted.
\<close>

theorem set_language_stores_preference:
  "conversationPreferences (onSetLanguage language s) =
     Some \<lparr>targetLanguage =
             (case language of
                None \<Rightarrow> ''auto''
              | Some l \<Rightarrow> if list_all isWhiteSpace l then ''auto'' else trim l),
           lastDetectedLanguage =
             (case conversationPreferences s of
                None \<Rightarrow> None
              | Some p \<Rightarrow> lastDetectedLanguage p)\<rparr>
   \<and> emitted (onSetLanguage language s) =
       emitted s @ [LanguageUpdated
         (case language of
            None \<Rightarrow> ''auto''
          | Some l \<Rightarrow> if list_all isWhiteSpace l then ''auto'' else trim l)]"
proof -
  let ?stored = "case language of None \<Rightarrow> ''auto''
                 | Some l \<Rightarrow> if list_all isWhiteSpace l then ''auto'' else trim l"
  let ?lang = "trim (case language of None \<Rightarrow> ''auto''
                     | Some l \<Rightarrow> if l = [] then ''auto'' else l)"
  have stored: "(if ?lang = [] then ''auto'' else ?lang) = ?stored"
  proof (cases language)
    case None
    then show ?thesis by (simp add: trim_auto)
  next
    case (Some l)
    show ?thesis
    proof (cases "l = []")
      case True
      with Some show ?thesis by (simp add: trim_auto)
    next
      case False
      with Some show ?thesis by (simp add: trim_Nil_iff)
    qed
  qed
  have prefs: "conversationPreferences (onSetLanguage language s) =
      Some ((case conversationPreferences s of None \<Rightarrow> defaultPreferences | Some p \<Rightarrow> p)
              \<lparr>targetLanguage := (if ?lang = [] then ''auto'' else ?lang)\<rparr>)"
    by (simp add: onSetLanguage_def Let_def emit_def)
  have ev: "emitted (onSetLanguage language s) =
      emitted s @ [LanguageUpdated (if ?lang = [] then ''auto'' else ?lang)]"
    by (simp add: onSetLanguage_def Let_def emit_def)
  have "conversationPreferences (onSetLanguage language s) =
     Some \<lparr>targetLanguage = ?stored,
           lastDetectedLanguage =
             (case conversationPreferences s of None \<Rightarrow> None | Some p \<Rightarrow> lastDetectedLanguage p)\<rparr>"
    unfolding prefs stored
    by (cases "conversationPreferences s") (simp_all add: defaultPreferences_def)
  moreover have "emitted (onSetLanguage language s) = emitted s @ [LanguageUpdated ?stored]"
    unfolding ev stored ..
  ultimately show ?thesis by blast
qed

subsection \<open>What the interleaved handlers change\<close>

lemmas handler_defs =
  onInterrupt_def abortInFlightControllers_def onSetLanguage_def onStartRecording_def
  onDisconnect_def emit_def Let_def

lemma handleAll_Nil: "handleAll [] s = s"
  by (simp add: handleAll_def)

lemma handleAll_Cons: "handleAll (e # evs) s = handleAll evs (handleInbound e s)"
  by (simp add: handleAll_def)

lemma handleAll_append: "handleAll (xs @ ys) s = handleAll ys (handleAll xs s)"
  by (simp add: handleAll_def)

lemma history_handleInbound:
  "conversationHistory (handleInbound e s) = (if e = Disconnect then None else conversationHistory s)"
  by (cases e) (simp_all add: handler_defs split: option.splits)

lemma history_handleAll:
  "conversationHistory (handleAll evs s) =
     (if Disconnect \<in> set evs then None else conversationHistory s)"
proof (induction evs arbitrary: s)
  case Nil
  show ?case by (simp add: handleAll_Nil)
next
  case (Cons e evs)
  show ?case using history_handleInbound[of e s] by (auto simp add: handleAll_Cons Cons.IH)
qed

lemma version_handleInbound:
  "e \<noteq> Disconnect \<Longrightarrow>
     getVersion (handleInbound e s) = (if e = Interrupt then getVersion s + 1 else getVersion s)"
  by (cases e) (simp_all add: handler_defs getVersion_def split: option.splits)

lemma version_handleAll:
  "Disconnect \<notin> set evs \<Longrightarrow>
     getVersion (handleAll evs s) = getVersion s + count_list evs Interrupt"
proof (induction evs arbitrary: s)
  case Nil
  show ?case by (simp add: handleAll_Nil)
next
  case (Cons e evs)
  then show ?case using version_handleInbound[of e s] by (auto simp add: handleAll_Cons)
qed

lemma emitted_handleInbound:
  "\<exists>out. emitted (handleInbound e s) = emitted s @ out \<and> list_all (\<lambda>x. \<not> isAiToken x) out
         \<and> (e = Interrupt \<longrightarrow> out = [AiTyping False])"
  by (cases e) (simp_all add: handler_defs split: option.splits)

lemma emitted_handleAll:
  "\<exists>out. emitted (handleAll evs s) = emitted s @ out \<and> list_all (\<lambda>x. \<not> isAiToken x) out
         \<and> (Interrupt \<in> set evs \<longrightarrow> AiTyping False \<in> set out)"
proof (induction evs arbitrary: s)
  case Nil
  show ?case by (simp add: handleAll_Nil)
next
  case (Cons e evs)
  obtain o1 where o1: "emitted (handleInbound e s) = emitted s @ o1"
      "list_all (\<lambda>x. \<not> isAiToken x) o1" "e = Interrupt \<longrightarrow> o1 = [AiTyping False]"
    using emitted_handleInbound by blast
  obtain o2 where o2: "emitted (handleAll evs (handleInbound e s)) = emitted (handleInbound e s) @ o2"
      "list_all (\<lambda>x. \<not> isAiToken x) o2" "Interrupt \<in> set evs \<longrightarrow> AiTyping False \<in> set o2"
    using Cons.IH by blast
  have "emitted (handleAll (e # evs) s) = emitted s @ (o1 @ o2)"
    by (simp add: handleAll_Cons o1 o2)
  moreover have "list_all (\<lambda>x. \<not> isAiToken x) (o1 @ o2)" using o1 o2 by simp
  moreover have "Interrupt \<in> set (e # evs) \<longrightarrow> AiTyping False \<in> set (o1 @ o2)"
    using o1 o2 by auto
  ultimately show ?case by blast
qed

subsection \<open>The part of a turn before its first suspension\<close>

lemma beginTurn_parts:
  "\<exists>s1. beginTurn env userInput s =
     (getVersion s, storedHistory s @ [userMessage env userInput],
      buildMessages (systemPromptEnv env)
        (case conversationPreferences s of None \<Rightarrow> defaultPreferences | Some p \<Rightarrow> p)
        (storedHistory s @ [userMessage env userInput]), s1)
     \<and> conversationHistory s1 = Some (storedHistory s @ [userMessage env userInput])
     \<and> conversationVersions s1 = conversationVersions s
     \<and> emitted s1 = emitted s @
          [MessageReceived (userTime env) userInput
             ((case lastInputSource s of None \<Rightarrow> Text | Some src \<Rightarrow> src) = Voice),
           AiTyping True]"
  by (simp add: beginTurn_def Let_def emit_def getVersion_def storedHistory_def userMessage_def)

subsection \<open>The prompt of a turn\<close>

text \<open>
  C7 (as amended). The prompt of a turn is one system message followed by the role and
  content of every message of the session's history in order, the user message of this
  turn last. The system message is the configured system prompt (the default when none
  is set), an empty line and a language directive. With a preference other than
  \<open>auto\<close> the directive is ``Respond in'' that language. With the preference \<open>auto\<close> it
  names the last detected language when there is one (other than \<open>auto\<close> or empty),
  and only otherwise asks for the language of the user input. The outcome of the turn
  depends on the language model only through its answer to this prompt.
\<close>

theorem prompt_of_turn:
  "turnPrompt env userInput s =
     (SystemMsg,
      systemPrompt (systemPromptEnv env) @ [CHR 0x0A, CHR 0x0A]
        @ languageDirective (case conversationPreferences s of
                               None \<Rightarrow> defaultPreferences | Some p \<Rightarrow> p))
       # map (\<lambda>msg. (chatRole (role msg), content msg))
           (storedHistory s @ [userMessage env userInput])
   \<and> languageDirective prefs =
       (if targetLanguage prefs = ''auto''
        then (case lastDetectedLanguage prefs of
                None \<Rightarrow> ''Respond in the same language as the user input.''
              | Some l \<Rightarrow>
                  if l = [] \<or> l = ''auto''
                  then ''Respond in the same language as the user input.''
                  else ''Respond in '' @ l @ ''.'')
        else ''Respond in '' @ targetLanguage prefs @ ''.'')
   \<and> systemPrompt None = defaultSystemPrompt
   \<and> processWithChatGPT (env\<lparr>generate := g\<rparr>) userInput s =
       processWithChatGPT (env\<lparr>generate := (\<lambda>messages. g (turnPrompt env userInput s))\<rparr>) userInput s"
proof -
  obtain s1 where b: "beginTurn env userInput s =
     (getVersion s, storedHistory s @ [userMessage env userInput],
      buildMessages (systemPromptEnv env)
        (case conversationPreferences s of None \<Rightarrow> defaultPreferences | Some p \<Rightarrow> p)
        (storedHistory s @ [userMessage env userInput]), s1)"
    using beginTurn_parts[of env userInput s] by blast
  have p: "turnPrompt env userInput s =
     buildMessages (systemPromptEnv env)
        (case conversationPreferences s of None \<Rightarrow> defaultPreferences | Some p \<Rightarrow> p)
        (storedHistory s @ [userMessage env userInput])"
    by (simp add: turnPrompt_def b)
  have 1: "turnPrompt env userInput s =
     (SystemMsg,
      systemPrompt (systemPromptEnv env) @ [CHR 0x0A, CHR 0x0A]
        @ languageDirective (case conversationPreferences s of
                               None \<Rightarrow> defaultPreferences | Some p \<Rightarrow> p))
       # map (\<lambda>msg. (chatRole (role msg), content msg))
           (storedHistory s @ [userMessage env userInput])"
    unfolding p by (simp add: buildMessages_def)
  have 2: "languageDirective prefs =
       (if targetLanguage prefs = ''auto''
        then (case lastDetectedLanguage prefs of
                None \<Rightarrow> ''Respond in the same language as the user input.''
              | Some l \<Rightarrow>
                  if l = [] \<or> l = ''auto''
                  then ''Respond in the same language as the user input.''
                  else ''Respond in '' @ l @ ''.'')
        else ''Respond in '' @ targetLanguage prefs @ ''.'')"
    by (simp add: languageDirective_def effectiveLanguage_def split: option.splits)
  have 3: "systemPrompt None = defaultSystemPrompt"
    by (simp add: systemPrompt_def)
  have bg: "beginTurn (env\<lparr>generate := h\<rparr>) userInput s = beginTurn env userInput s" for h
    by (simp add: beginTurn_def)
  have ft: "finishTurn (env\<lparr>generate := h\<rparr>) = finishTurn env" for h
    by (simp add: finishTurn_def fun_eq_iff)
  have 4: "processWithChatGPT (env\<lparr>generate := g\<rparr>) userInput s =
       processWithChatGPT (env\<lparr>generate := (\<lambda>messages. g (turnPrompt env userInput s))\<rparr>) userInput s"
    by (simp add: processWithChatGPT_def bg b p ft Let_def
        split: generation.splits prod.splits loopResult.splits)
  show ?thesis using 1 2 3 4 by blast
qed

text \<open>
  C7 as stated fails: with the preference \<open>auto\<close> and a last detected language
  \<open>french\<close> (stored by an earlier transcription), the directive of a typed
  \<open>hello\<close> is ``Respond in french.'', not the instruction to answer in the language of
  the user input.
\<close>

theorem auto_preference_names_detected_language:
  "targetLanguage \<lparr>targetLanguage = ''auto'', lastDetectedLanguage = Some ''french''\<rparr> = ''auto''
   \<and> turnPrompt quietEnv ''hello''
        (onConnection\<lparr>conversationPreferences :=
           Some \<lparr>targetLanguage = ''auto'', lastDetectedLanguage = Some ''french''\<rparr>\<rparr>)
      = [(SystemMsg, defaultSystemPrompt @ [CHR 0x0A, CHR 0x0A] @ ''Respond in french.''),
         (UserMsg, ''hello'')]
   \<and> ''Respond in french.'' \<noteq> ''Respond in the same language as the user input.''"
  by (simp add: turnPrompt_def beginTurn_def Let_def buildMessages_def languageDirective_def
      effectiveLanguage_def systemPrompt_def quietEnv_def onConnection_def emit_def)

subsection \<open>The two loops of a turn\<close>

lemma no_tokens_filter: "list_all (\<lambda>x. \<not> isAiToken x) xs \<Longrightarrow> filter isAiToken xs = []"
  by (induction xs) simp_all

lemma streamLoop_append:
  "streamLoop v i a (xs @ ys) s =
     (case streamLoop v i a xs s of
        (Ended a', s') \<Rightarrow> streamLoop v i a' ys s'
      | (Stale, s') \<Rightarrow> (Stale, s')
      | (Threw, s') \<Rightarrow> (Threw, s'))"
  by (induction v i a xs s rule: streamLoop.induct) (simp_all add: Let_def)

lemma streamLoop_emits:
  "\<exists>out k. emitted (snd (streamLoop v i a parts s)) = emitted s @ out
      \<and> filter isAiToken out = take k (map (AiToken i) (tokensOf parts))"
proof (induction v i a parts s rule: streamLoop.induct)
  case (1 v i a s)
  show ?case by simp
next
  case (2 v i a evs rest s)
  obtain o1 where o1: "emitted (handleAll evs s) = emitted s @ o1"
      "list_all (\<lambda>x. \<not> isAiToken x) o1"
    using emitted_handleAll by blast
  have "filter isAiToken o1 = take 0 (map (AiToken i) (tokensOf ((evs, StreamThrows) # rest)))"
    using o1 by (simp add: no_tokens_filter)
  then show ?case using o1(1) by (metis snd_conv streamLoop.simps(2))
next
  case (3 v i a evs token rest s)
  let ?s1 = "handleAll evs s"
  obtain o1 where o1: "emitted ?s1 = emitted s @ o1" "list_all (\<lambda>x. \<not> isAiToken x) o1"
    using emitted_handleAll by blast
  have f1: "filter isAiToken o1 = []" using o1 by (simp add: no_tokens_filter)
  show ?case
  proof (cases "getVersion ?s1 \<noteq> v")
    case True
    have "emitted (snd (streamLoop v i a ((evs, Part token) # rest) s)) = emitted s @ (o1 @ [AiTyping False])"
      using True o1 by (simp add: Let_def emit_def)
    moreover have "filter isAiToken (o1 @ [AiTyping False]) =
        take 0 (map (AiToken i) (tokensOf ((evs, Part token) # rest)))"
      using f1 by simp
    ultimately show ?thesis by blast
  next
    case False
    then have eq: "getVersion ?s1 = v" by simp
    show ?thesis
    proof (cases "token \<noteq> []")
      case True
      let ?s2 = "emit (AiToken i token) ?s1"
      from 3(1)[OF refl _ True] False obtain o2 k where
        o2: "emitted (snd (streamLoop v i (a @ token) rest ?s2)) = emitted ?s2 @ o2"
            "filter isAiToken o2 = take k (map (AiToken i) (tokensOf rest))"
        by auto
      have "emitted (snd (streamLoop v i a ((evs, Part token) # rest) s)) =
          emitted s @ (o1 @ [AiToken i token] @ o2)"
        using True eq o1 o2 by (simp add: Let_def emit_def)
      moreover have "filter isAiToken (o1 @ [AiToken i token] @ o2) =
          take (Suc k) (map (AiToken i) (tokensOf ((evs, Part token) # rest)))"
        using f1 o2 True by simp
      ultimately show ?thesis by blast
    next
      case F2: False
      from 3(2)[OF refl _ F2] False obtain o2 k where
        o2: "emitted (snd (streamLoop v i a rest ?s1)) = emitted ?s1 @ o2"
            "filter isAiToken o2 = take k (map (AiToken i) (tokensOf rest))"
        by auto
      have "emitted (snd (streamLoop v i a ((evs, Part token) # rest) s)) = emitted s @ (o1 @ o2)"
        using F2 eq o1 o2 by (simp add: Let_def)
      moreover have "filter isAiToken (o1 @ o2) =
          take k (map (AiToken i) (tokensOf ((evs, Part token) # rest)))"
        using f1 o2 F2 by simp
      ultimately show ?thesis by blast
    qed
  qed
qed

lemma streamLoop_history:
  "conversationHistory (snd (streamLoop v i a parts s)) =
     None \<or> conversationHistory (snd (streamLoop v i a parts s)) = conversationHistory s"
  by (induction v i a parts s rule: streamLoop.induct)
     (auto simp add: Let_def emit_def history_handleAll)

lemma streamLoop_history_connected:
  "Disconnect \<notin> set (awaited parts) \<Longrightarrow>
     conversationHistory (snd (streamLoop v i a parts s)) = conversationHistory s"
  by (induction v i a parts s rule: streamLoop.induct)
     (auto simp add: Let_def emit_def history_handleAll awaited_def)

lemma streamLoop_version:
  "streamLoop v i a parts s = (Ended a', s') \<Longrightarrow> v \<le> getVersion s \<Longrightarrow> v \<le> getVersion s'"
  by (induction v i a parts s rule: streamLoop.induct)
     (auto simp add: Let_def emit_def getVersion_def split: if_splits)

lemma ttsLoop_skip:
  "trim sentence = [] \<Longrightarrow>
     ttsLoop synth i (sentence # rest) sched s = ttsLoop synth i rest sched s"
  by simp

lemma ttsLoop_step:
  "trim sentence \<noteq> [] \<Longrightarrow>
     ttsLoop synth i (sentence # rest) sched s =
       ttsLoop synth i rest (tl sched)
         (emit (AiAudioChunk i (convertTextToSpeech synth (trim sentence)))
            (handleAll (case sched of [] \<Rightarrow> [] | evs # later \<Rightarrow> evs) s))"
  by (simp add: Let_def)

lemma history_emit: "conversationHistory (emit e s) = conversationHistory s"
  by (simp add: emit_def)

lemma ttsLoop_history:
  "conversationHistory (ttsLoop synth i units sched s) = None
     \<or> conversationHistory (ttsLoop synth i units sched s) = conversationHistory s"
proof (induction units arbitrary: sched s)
  case Nil
  show ?case by simp
next
  case (Cons sentence rest)
  show ?case
  proof (cases "trim sentence = []")
    case True
    then show ?thesis using Cons.IH[of sched s] by (simp only: ttsLoop_skip)
  next
    case False
    let ?evs = "case sched of [] \<Rightarrow> [] | evs # later \<Rightarrow> evs"
    let ?s1 = "emit (AiAudioChunk i (convertTextToSpeech synth (trim sentence))) (handleAll ?evs s)"
    have h1: "conversationHistory ?s1 = None \<or> conversationHistory ?s1 = conversationHistory s"
      by (simp add: history_emit history_handleAll)
    have "conversationHistory (ttsLoop synth i rest (tl sched) ?s1) = None
        \<or> conversationHistory (ttsLoop synth i rest (tl sched) ?s1) = conversationHistory ?s1"
      by (rule Cons.IH)
    then show ?thesis using h1 unfolding ttsLoop_step[OF False] by metis
  qed
qed

lemma ttsLoop_history_connected:
  "Disconnect \<notin> set (concat sched) \<Longrightarrow>
     conversationHistory (ttsLoop synth i units sched s) = conversationHistory s"
proof (induction units arbitrary: sched s)
  case Nil
  show ?case by simp
next
  case (Cons sentence rest)
  show ?case
  proof (cases "trim sentence = []")
    case True
    then show ?thesis using Cons.IH[OF Cons.prems, of s] by (simp only: ttsLoop_skip)
  next
    case False
    let ?evs = "case sched of [] \<Rightarrow> [] | evs # later \<Rightarrow> evs"
    let ?s1 = "emit (AiAudioChunk i (convertTextToSpeech synth (trim sentence))) (handleAll ?evs s)"
    have a: "Disconnect \<notin> set ?evs"
      using Cons.prems by (cases sched) auto
    have b: "Disconnect \<notin> set (concat (tl sched))"
      using Cons.prems by (cases sched) auto
    have h1: "conversationHistory ?s1 = conversationHistory s"
      using a by (simp only: history_emit history_handleAll if_False)
    show ?thesis
      unfolding ttsLoop_step[OF False] using Cons.IH[OF b, of ?s1] h1 by simp
  qed
qed

subsection \<open>History after a turn\<close>

lemma pruneHistory_length: "length (pruneHistory history n) \<le> n"
  by (simp add: pruneHistory_def)

lemma pruneHistory_drop: "pruneHistory history n = drop (length history - n) history"
  by (simp add: pruneHistory_def)

lemma finishTurn_history:
  "conversationHistory (finishTurn env history aiResponse s) = None
   \<or> conversationHistory (finishTurn env history aiResponse s) =
       Some (pruneHistory (history @ [assistantMessage env aiResponse]) defaultMaxMessages)"
  using ttsLoop_history[of "synthesize env" "aiMessageTime env" "sentencesOf aiResponse" "ttsAwaits env"
      "emit (AiMessageDone (aiMessageTime env) aiResponse)
         (emit (AiTyping False)
            (s\<lparr>conversationHistory :=
                 Some (pruneHistory (history @ [assistantMessage env aiResponse]) defaultMaxMessages)\<rparr>))"]
  by (simp add: finishTurn_def Let_def streamTextToSpeech_def history_emit assistantMessage_def)

lemma finishTurn_history_connected:
  "Disconnect \<notin> set (concat (ttsAwaits env)) \<Longrightarrow>
   conversationHistory (finishTurn env history aiResponse s) =
       Some (pruneHistory (history @ [assistantMessage env aiResponse]) defaultMaxMessages)"
  by (simp add: finishTurn_def Let_def streamTextToSpeech_def history_emit assistantMessage_def
      ttsLoop_history_connected)

lemma completed_turn:
  assumes "fst (processWithChatGPT env userInput s) = Completed"
  shows "\<exists>parts endAwait aiResponse s4.
      generate env (turnPrompt env userInput s) = Streams parts endAwait
    \<and> snd (processWithChatGPT env userInput s) =
        finishTurn env (storedHistory s @ [userMessage env userInput]) aiResponse
          (handleAll endAwait s4)"
proof -
  obtain s1 where b: "beginTurn env userInput s =
     (getVersion s, storedHistory s @ [userMessage env userInput],
      buildMessages (systemPromptEnv env)
        (case conversationPreferences s of None \<Rightarrow> defaultPreferences | Some p \<Rightarrow> p)
        (storedHistory s @ [userMessage env userInput]), s1)"
    using beginTurn_parts[of env userInput s] by blast
  have p: "turnPrompt env userInput s =
     buildMessages (systemPromptEnv env)
        (case conversationPreferences s of None \<Rightarrow> defaultPreferences | Some p \<Rightarrow> p)
        (storedHistory s @ [userMessage env userInput])"
    by (simp add: turnPrompt_def b)
  show ?thesis
    using assms unfolding p
    by (auto simp add: processWithChatGPT_def b Let_def
        split: generation.splits prod.splits loopResult.splits)
qed

text \<open>
  C6. Pruning keeps at most 20 messages and drops from the front only, so of 25 messages
  exactly the most recent 20 remain and the oldest 5 are gone. A turn that runs to
  completion stores the pruned history: the history it found, the user message and the
  assistant reply, cut to the most recent 20. (If the socket disconnects during the
  speech synthesis of the turn, no history is left at all.)
\<close>

theorem history_bounded_after_completed_turn:
  "length (pruneHistory history defaultMaxMessages) \<le> 20
   \<and> pruneHistory history defaultMaxMessages = drop (length history - 20) history
   \<and> (length oldest = 5 \<and> length recent = 20 \<longrightarrow>
        pruneHistory (oldest @ recent) defaultMaxMessages = recent)
   \<and> (fst (processWithChatGPT env userInput s) = Completed \<longrightarrow>
        (\<exists>aiResponse. \<forall>h.
           conversationHistory (snd (processWithChatGPT env userInput s)) = Some h \<longrightarrow>
             h = pruneHistory (storedHistory s @ [userMessage env userInput,
                                                   assistantMessage env aiResponse])
                   defaultMaxMessages
             \<and> length h \<le> 20))
   \<and> (fst (processWithChatGPT env userInput s) = Completed
        \<and> Disconnect \<notin> set (concat (ttsAwaits env)) \<longrightarrow>
        conversationHistory (snd (processWithChatGPT env userInput s)) \<noteq> None)"
proof -
  have 1: "length (pruneHistory history defaultMaxMessages) \<le> 20"
    using pruneHistory_length[of history defaultMaxMessages] by (simp add: defaultMaxMessages_def)
  have 2: "pruneHistory history defaultMaxMessages = drop (length history - 20) history"
    by (simp add: pruneHistory_drop defaultMaxMessages_def)
  have 3: "length oldest = 5 \<and> length recent = 20 \<longrightarrow>
        pruneHistory (oldest @ recent) defaultMaxMessages = recent"
    by (simp add: pruneHistory_def defaultMaxMessages_def)
  have 4: "\<exists>aiResponse. \<forall>h.
           conversationHistory (snd (processWithChatGPT env userInput s)) = Some h \<longrightarrow>
             h = pruneHistory (storedHistory s @ [userMessage env userInput,
                                                   assistantMessage env aiResponse])
                   defaultMaxMessages
             \<and> length h \<le> 20"
    if c: "fst (processWithChatGPT env userInput s) = Completed"
  proof -
    from completed_turn[OF c] obtain endAwait aiResponse s4 where
      r: "snd (processWithChatGPT env userInput s) =
        finishTurn env (storedHistory s @ [userMessage env userInput]) aiResponse
          (handleAll endAwait s4)" by blast
    have "\<forall>h. conversationHistory (snd (processWithChatGPT env userInput s)) = Some h \<longrightarrow>
             h = pruneHistory (storedHistory s @ [userMessage env userInput,
                                                   assistantMessage env aiResponse])
                   defaultMaxMessages
             \<and> length h \<le> 20"
      unfolding r
      using finishTurn_history[of env "storedHistory s @ [userMessage env userInput]" aiResponse
          "handleAll endAwait s4"]
        pruneHistory_length[of "storedHistory s @ [userMessage env userInput,
                                                   assistantMessage env aiResponse]" defaultMaxMessages]
      by (auto simp add: defaultMaxMessages_def)
    then show ?thesis by blast
  qed
  have 5: "conversationHistory (snd (processWithChatGPT env userInput s)) \<noteq> None"
    if c: "fst (processWithChatGPT env userInput s) = Completed"
      and d: "Disconnect \<notin> set (concat (ttsAwaits env))"
  proof -
    from completed_turn[OF c] obtain endAwait aiResponse s4 where
      r: "snd (processWithChatGPT env userInput s) =
        finishTurn env (storedHistory s @ [userMessage env userInput]) aiResponse
          (handleAll endAwait s4)" by blast
    show ?thesis unfolding r by (simp add: finishTurn_history_connected[OF d])
  qed
  show ?thesis using 1 2 3 4 5 by blast
qed

lemmas turn_eval =
  processWithChatGPT_def beginTurn_def finishTurn_def streamTextToSpeech_def catchBlock_def
  buildMessages_def turnPrompt_def turnHandlers_def awaited_def
  handleAll_def handler_defs getVersion_def storedHistory_def userMessage_def
  assistantMessage_def convertTextToSpeech_def sentencesOf_def isTerminator_def
  trim_def isWhiteSpace_def pruneHistory_def defaultMaxMessages_def
  onConnection_def quietEnv_def

lemma quiet_completed: "fst (processWithChatGPT quietEnv ''hi'' onConnection) = Completed"
  by (simp add: turn_eval)

theorem history_bounded_witness:
  "length (replicate 5 (userMessage quietEnv ''old'')) = 5
   \<and> length (replicate 20 (userMessage quietEnv ''new'')) = 20
   \<and> pruneHistory (replicate 5 (userMessage quietEnv ''old'')
                     @ replicate 20 (userMessage quietEnv ''new'')) defaultMaxMessages
       = replicate 20 (userMessage quietEnv ''new'')
   \<and> fst (processWithChatGPT quietEnv ''hi'' onConnection) = Completed
   \<and> Disconnect \<notin> set (concat (ttsAwaits quietEnv))
   \<and> conversationHistory (snd (processWithChatGPT quietEnv ''hi'' onConnection)) \<noteq> None"
proof -
  have d: "Disconnect \<notin> set (concat (ttsAwaits quietEnv))"
    by (simp add: quietEnv_def)
  show ?thesis
    using history_bounded_after_completed_turn[where oldest = "replicate 5 (userMessage quietEnv ''old'')"
        and recent = "replicate 20 (userMessage quietEnv ''new'')"
        and env = quietEnv and userInput = "''hi''" and s = onConnection]
      quiet_completed d
    by simp
qed

subsection \<open>A turn whose generation fails\<close>

lemma failed_turn:
  assumes "fst (processWithChatGPT env userInput s) = Failed"
  shows "\<exists>s2 out. snd (processWithChatGPT env userInput s) = catchBlock s2
      \<and> emitted s2 = emitted s @ out
      \<and> (conversationHistory s2 = None
          \<or> conversationHistory s2 = Some (storedHistory s @ [userMessage env userInput]))
      \<and> (Disconnect \<notin> set (turnHandlers env userInput s) \<longrightarrow>
            conversationHistory s2 = Some (storedHistory s @ [userMessage env userInput]))"
proof -
  let ?hist = "storedHistory s @ [userMessage env userInput]"
  obtain s1 where b: "beginTurn env userInput s =
     (getVersion s, ?hist,
      buildMessages (systemPromptEnv env)
        (case conversationPreferences s of None \<Rightarrow> defaultPreferences | Some p \<Rightarrow> p)
        ?hist, s1)"
    and h1: "conversationHistory s1 = Some ?hist"
    and e1: "emitted s1 = emitted s @
          [MessageReceived (userTime env) userInput
             ((case lastInputSource s of None \<Rightarrow> Text | Some src \<Rightarrow> src) = Voice),
           AiTyping True]"
    using beginTurn_parts[of env userInput s] by blast
  have p: "turnPrompt env userInput s =
     buildMessages (systemPromptEnv env)
        (case conversationPreferences s of None \<Rightarrow> defaultPreferences | Some p \<Rightarrow> p) ?hist"
    by (simp add: turnPrompt_def b)
  let ?s2 = "handleAll (createAwait env) s1"
  obtain o2 where o2: "emitted ?s2 = emitted s1 @ o2"
    using emitted_handleAll by blast
  have h2: "conversationHistory ?s2 = (if Disconnect \<in> set (createAwait env) then None else Some ?hist)"
    by (simp add: history_handleAll h1)
  show ?thesis
  proof (cases "generate env (turnPrompt env userInput s)")
    case CreateRejects
    then have r: "snd (processWithChatGPT env userInput s) = catchBlock ?s2"
      unfolding p by (simp add: processWithChatGPT_def b Let_def)
    have "emitted ?s2 = emitted s @ ([MessageReceived (userTime env) userInput
             ((case lastInputSource s of None \<Rightarrow> Text | Some src \<Rightarrow> src) = Voice),
           AiTyping True] @ o2)" using o2 e1 by simp
    moreover have "conversationHistory ?s2 = None \<or> conversationHistory ?s2 = Some ?hist"
      using h2 by simp
    moreover have "Disconnect \<notin> set (turnHandlers env userInput s) \<longrightarrow>
            conversationHistory ?s2 = Some ?hist"
      using h2 by (simp add: turnHandlers_def)
    ultimately show ?thesis using r by blast
  next
    case (Streams parts endAwait)
    let ?s3 = "emit (AiMessageStart (aiMessageTime env)) ?s2"
    let ?loop = "streamLoop (getVersion s) (aiMessageTime env) [] parts ?s3"
    have threw: "fst ?loop = Threw" and r: "snd (processWithChatGPT env userInput s) = catchBlock (snd ?loop)"
      using assms Streams unfolding p
      by (auto simp add: processWithChatGPT_def b Let_def split: prod.splits loopResult.splits)
    obtain o3 where o3: "emitted (snd ?loop) = emitted ?s3 @ o3"
      using streamLoop_emits by blast
    have "emitted (snd ?loop) = emitted s @ ([MessageReceived (userTime env) userInput
             ((case lastInputSource s of None \<Rightarrow> Text | Some src \<Rightarrow> src) = Voice),
           AiTyping True] @ o2 @ [AiMessageStart (aiMessageTime env)] @ o3)"
      using o3 o2 e1 by (simp add: emit_def)
    moreover have h3: "conversationHistory ?s3 = conversationHistory ?s2"
      by (simp add: history_emit)
    have "conversationHistory (snd ?loop) = None \<or> conversationHistory (snd ?loop) = Some ?hist"
      using streamLoop_history[of "getVersion s" "aiMessageTime env" "[]" parts ?s3] h3 h2
      by (auto split: if_splits)
    moreover have "Disconnect \<notin> set (turnHandlers env userInput s) \<longrightarrow>
            conversationHistory (snd ?loop) = Some ?hist"
    proof
      assume d: "Disconnect \<notin> set (turnHandlers env userInput s)"
      then have d1: "Disconnect \<notin> set (createAwait env)" and d2: "Disconnect \<notin> set (awaited parts)"
        using Streams by (simp_all add: turnHandlers_def)
      show "conversationHistory (snd ?loop) = Some ?hist"
        using streamLoop_history_connected[OF d2, of "getVersion s" "aiMessageTime env" "[]" ?s3]
          h3 h2 d1 by simp
    qed
    ultimately show ?thesis using r by blast
  qed
qed

lemma count_list_zero: "x \<notin> set xs \<Longrightarrow> count_list xs x = 0"
  by (induction xs) auto

lemma streamLoop_throw_never_ends:
  "fst (streamLoop v i a (pre @ (evs, StreamThrows) # post) s) = Stale
   \<or> fst (streamLoop v i a (pre @ (evs, StreamThrows) # post) s) = Threw"
proof -
  obtain r0 s0 where l0: "streamLoop v i a pre s = (r0, s0)" by (cases "streamLoop v i a pre s")
  show ?thesis
    by (cases r0) (simp_all add: streamLoop_append l0)
qed

lemma streamLoop_quiet:
  "getVersion s = v \<Longrightarrow> Interrupt \<notin> set (awaited parts) \<Longrightarrow> Disconnect \<notin> set (awaited parts) \<Longrightarrow>
     fst (streamLoop v i a parts s) \<noteq> Stale"
proof (induction v i a parts s rule: streamLoop.induct)
  case (1 v i a s)
  show ?case by simp
next
  case (2 v i a evs rest s)
  show ?case by simp
next
  case (3 v i a evs token rest s)
  have ne: "Interrupt \<notin> set evs" "Disconnect \<notin> set evs"
    and nr: "Interrupt \<notin> set (awaited rest)" "Disconnect \<notin> set (awaited rest)"
    using 3(4,5) by (simp_all add: awaited_def)
  have v1: "getVersion (handleAll evs s) = v"
    using version_handleAll[OF ne(2), of s] count_list_zero[OF ne(1)] 3(3) by simp
  show ?case
  proof (cases "token \<noteq> []")
    case True
    have "getVersion (emit (AiToken i token) (handleAll evs s)) = v"
      using v1 by (simp add: emit_def getVersion_def)
    from 3(1)[OF refl _ True this nr] v1 True show ?thesis by (simp add: Let_def)
  next
    case False
    from 3(2)[OF refl _ False v1 nr] v1 False show ?thesis by (simp add: Let_def)
  qed
qed

lemma streamLoop_throw_reached:
  assumes "getVersion s = v" and "Interrupt \<notin> set (awaited pre)" and "Disconnect \<notin> set (awaited pre)"
  shows "fst (streamLoop v i a (pre @ (evs, StreamThrows) # post) s) = Threw"
proof -
  obtain r0 s0 where l0: "streamLoop v i a pre s = (r0, s0)" by (cases "streamLoop v i a pre s")
  have "r0 \<noteq> Stale" using streamLoop_quiet[OF assms, of i a] l0 by simp
  then show ?thesis by (cases r0) (simp_all add: streamLoop_append l0)
qed

lemma uncompleted_turn:
  assumes "fst (processWithChatGPT env userInput s) \<noteq> Completed"
  shows "(conversationHistory (snd (processWithChatGPT env userInput s)) = None
          \<or> conversationHistory (snd (processWithChatGPT env userInput s))
              = Some (storedHistory s @ [userMessage env userInput]))
      \<and> (Disconnect \<notin> set (turnHandlers env userInput s) \<longrightarrow>
            conversationHistory (snd (processWithChatGPT env userInput s))
              = Some (storedHistory s @ [userMessage env userInput]))"
proof -
  let ?hist = "storedHistory s @ [userMessage env userInput]"
  obtain s1 where b: "beginTurn env userInput s =
     (getVersion s, ?hist,
      buildMessages (systemPromptEnv env)
        (case conversationPreferences s of None \<Rightarrow> defaultPreferences | Some p \<Rightarrow> p)
        ?hist, s1)"
    and h1: "conversationHistory s1 = Some ?hist"
    using beginTurn_parts[of env userInput s] by blast
  have p: "turnPrompt env userInput s =
     buildMessages (systemPromptEnv env)
        (case conversationPreferences s of None \<Rightarrow> defaultPreferences | Some p \<Rightarrow> p) ?hist"
    by (simp add: turnPrompt_def b)
  let ?s2 = "handleAll (createAwait env) s1"
  have h2: "conversationHistory ?s2 = (if Disconnect \<in> set (createAwait env) then None else Some ?hist)"
    by (simp add: history_handleAll h1)
  have hc: "conversationHistory (catchBlock x) = conversationHistory x" for x
    by (simp add: catchBlock_def emit_def)
  show ?thesis
  proof (cases "generate env (turnPrompt env userInput s)")
    case CreateRejects
    then have r: "snd (processWithChatGPT env userInput s) = catchBlock ?s2"
      unfolding p by (simp add: processWithChatGPT_def b Let_def)
    show ?thesis unfolding r hc using h2 by (simp add: turnHandlers_def)
  next
    case (Streams parts endAwait)
    let ?s3 = "emit (AiMessageStart (aiMessageTime env)) ?s2"
    let ?loop = "streamLoop (getVersion s) (aiMessageTime env) [] parts ?s3"
    have r: "conversationHistory (snd (processWithChatGPT env userInput s))
        = conversationHistory (snd ?loop)"
      using assms Streams unfolding p
      by (auto simp add: processWithChatGPT_def b Let_def hc split: prod.splits loopResult.splits)
    have h3: "conversationHistory ?s3 = conversationHistory ?s2"
      by (simp add: history_emit)
    have a: "conversationHistory (snd ?loop) = None \<or> conversationHistory (snd ?loop) = Some ?hist"
      using streamLoop_history[of "getVersion s" "aiMessageTime env" "[]" parts ?s3] h3 h2
      by (auto split: if_splits)
    have c: "Disconnect \<notin> set (turnHandlers env userInput s) \<longrightarrow>
            conversationHistory (snd ?loop) = Some ?hist"
    proof
      assume d: "Disconnect \<notin> set (turnHandlers env userInput s)"
      then have d1: "Disconnect \<notin> set (createAwait env)" and d2: "Disconnect \<notin> set (awaited parts)"
        using Streams by (simp_all add: turnHandlers_def)
      show "conversationHistory (snd ?loop) = Some ?hist"
        using streamLoop_history_connected[OF d2, of "getVersion s" "aiMessageTime env" "[]" ?s3]
          h3 h2 d1 by simp
    qed
    show ?thesis unfolding r using a c by blast
  qed
qed

lemma throwing_stream_fails:
  assumes g: "generate env (turnPrompt env userInput s) = Streams (pre @ (evs, StreamThrows) # post) endAwait"
  shows "fst (processWithChatGPT env userInput s) \<noteq> Completed"
    and "Interrupt \<notin> set (createAwait env @ awaited pre) \<Longrightarrow>
         Disconnect \<notin> set (createAwait env @ awaited pre) \<Longrightarrow>
         fst (processWithChatGPT env userInput s) = Failed"
proof -
  let ?hist = "storedHistory s @ [userMessage env userInput]"
  obtain s1 where b: "beginTurn env userInput s =
     (getVersion s, ?hist,
      buildMessages (systemPromptEnv env)
        (case conversationPreferences s of None \<Rightarrow> defaultPreferences | Some p \<Rightarrow> p)
        ?hist, s1)"
    and v1: "conversationVersions s1 = conversationVersions s"
    using beginTurn_parts[of env userInput s] by blast
  have p: "turnPrompt env userInput s =
     buildMessages (systemPromptEnv env)
        (case conversationPreferences s of None \<Rightarrow> defaultPreferences | Some p \<Rightarrow> p) ?hist"
    by (simp add: turnPrompt_def b)
  let ?s3 = "emit (AiMessageStart (aiMessageTime env)) (handleAll (createAwait env) s1)"
  let ?loop = "streamLoop (getVersion s) (aiMessageTime env) [] (pre @ (evs, StreamThrows) # post) ?s3"
  have res: "fst (processWithChatGPT env userInput s) =
      (case fst ?loop of Ended x \<Rightarrow> Completed | Stale \<Rightarrow> Aborted | Threw \<Rightarrow> Failed)"
    using g unfolding p
    by (simp add: processWithChatGPT_def b Let_def split: prod.splits loopResult.splits)
  show "fst (processWithChatGPT env userInput s) \<noteq> Completed"
    using streamLoop_throw_never_ends[of "getVersion s" "aiMessageTime env" "[]" pre evs post ?s3]
    unfolding res by auto
  show "fst (processWithChatGPT env userInput s) = Failed"
    if i: "Interrupt \<notin> set (createAwait env @ awaited pre)"
      and d: "Disconnect \<notin> set (createAwait env @ awaited pre)"
  proof -
    have "getVersion s1 = getVersion s" using v1 by (simp add: getVersion_def)
    then have "getVersion (handleAll (createAwait env) s1) = getVersion s"
      using version_handleAll[of "createAwait env" s1] count_list_zero[of Interrupt "createAwait env"] i d
      by simp
    then have v3: "getVersion ?s3 = getVersion s" by (simp add: emit_def getVersion_def)
    have "fst ?loop = Threw"
      by (rule streamLoop_throw_reached[OF v3]) (use i d in simp_all)
    then show ?thesis unfolding res by simp
  qed
qed

text \<open>
  C8. When the call that opens the generation stream rejects, or the stream throws at
  its first item, the turn fails; so it does when the stream throws after any number of
  tokens, provided no interrupt or disconnect was handled before the throw (an interrupt
  before it makes the turn stale first). Whatever is interleaved, a turn whose stream
  throws never completes and leaves as the session's history exactly the history it
  found followed by the user message of the turn: no assistant entry, no partial reply
  and no second copy. A turn that fails ends by emitting typing-off and then the error
  ``Failed to get AI response''. (After a disconnect during the turn there is no history
  at all.)
\<close>

theorem failed_generation_notifies_and_keeps_history:
  "(generate env (turnPrompt env userInput s) = CreateRejects \<longrightarrow>
      fst (processWithChatGPT env userInput s) = Failed)
   \<and> (generate env (turnPrompt env userInput s) = Streams ((evs, StreamThrows) # rest) endAwait \<longrightarrow>
      fst (processWithChatGPT env userInput s) = Failed)
   \<and> (generate env (turnPrompt env userInput s) = Streams (pre @ (evs, StreamThrows) # post) endAwait
        \<and> Interrupt \<notin> set (createAwait env @ awaited pre)
        \<and> Disconnect \<notin> set (createAwait env @ awaited pre) \<longrightarrow>
      fst (processWithChatGPT env userInput s) = Failed)
   \<and> (generate env (turnPrompt env userInput s) = Streams (pre @ (evs, StreamThrows) # post) endAwait \<longrightarrow>
      fst (processWithChatGPT env userInput s) \<noteq> Completed
      \<and> (\<forall>h. conversationHistory (snd (processWithChatGPT env userInput s)) = Some h \<longrightarrow>
             h = storedHistory s @ [userMessage env userInput])
      \<and> (Disconnect \<notin> set (turnHandlers env userInput s) \<longrightarrow>
            conversationHistory (snd (processWithChatGPT env userInput s)) =
              Some (storedHistory s @ [userMessage env userInput])))
   \<and> (fst (processWithChatGPT env userInput s) = Failed \<longrightarrow>
        (\<exists>out. emitted (snd (processWithChatGPT env userInput s)) =
           emitted s @ out @ [AiTyping False, ErrorEvent ''Failed to get AI response''])
      \<and> (\<forall>h. conversationHistory (snd (processWithChatGPT env userInput s)) = Some h \<longrightarrow>
             h = storedHistory s @ [userMessage env userInput])
      \<and> (Disconnect \<notin> set (turnHandlers env userInput s) \<longrightarrow>
            conversationHistory (snd (processWithChatGPT env userInput s)) =
              Some (storedHistory s @ [userMessage env userInput])))"
proof -
  have 1: "generate env (turnPrompt env userInput s) = CreateRejects \<longrightarrow>
      fst (processWithChatGPT env userInput s) = Failed"
    by (auto simp add: processWithChatGPT_def turnPrompt_def Let_def split: prod.splits)
  have 2: "generate env (turnPrompt env userInput s) = Streams ((evs, StreamThrows) # rest) endAwait \<longrightarrow>
      fst (processWithChatGPT env userInput s) = Failed"
    by (auto simp add: processWithChatGPT_def turnPrompt_def Let_def split: prod.splits)
  have 3: "generate env (turnPrompt env userInput s) = Streams (pre @ (evs, StreamThrows) # post) endAwait
        \<and> Interrupt \<notin> set (createAwait env @ awaited pre)
        \<and> Disconnect \<notin> set (createAwait env @ awaited pre) \<longrightarrow>
      fst (processWithChatGPT env userInput s) = Failed"
    using throwing_stream_fails(2)[of env userInput s pre evs post endAwait] by blast
  have 4: "fst (processWithChatGPT env userInput s) \<noteq> Completed
      \<and> (\<forall>h. conversationHistory (snd (processWithChatGPT env userInput s)) = Some h \<longrightarrow>
             h = storedHistory s @ [userMessage env userInput])
      \<and> (Disconnect \<notin> set (turnHandlers env userInput s) \<longrightarrow>
            conversationHistory (snd (processWithChatGPT env userInput s)) =
              Some (storedHistory s @ [userMessage env userInput]))"
    if g: "generate env (turnPrompt env userInput s) = Streams (pre @ (evs, StreamThrows) # post) endAwait"
  proof -
    have nc: "fst (processWithChatGPT env userInput s) \<noteq> Completed"
      by (rule throwing_stream_fails(1)[OF g])
    from uncompleted_turn[OF nc] show ?thesis using nc by auto
  qed
  have 5: "(\<exists>out. emitted (snd (processWithChatGPT env userInput s)) =
           emitted s @ out @ [AiTyping False, ErrorEvent ''Failed to get AI response''])
      \<and> (\<forall>h. conversationHistory (snd (processWithChatGPT env userInput s)) = Some h \<longrightarrow>
             h = storedHistory s @ [userMessage env userInput])
      \<and> (Disconnect \<notin> set (turnHandlers env userInput s) \<longrightarrow>
            conversationHistory (snd (processWithChatGPT env userInput s)) =
              Some (storedHistory s @ [userMessage env userInput]))"
    if f: "fst (processWithChatGPT env userInput s) = Failed"
  proof -
    from failed_turn[OF f] obtain s2 out where
      r: "snd (processWithChatGPT env userInput s) = catchBlock s2"
      and e: "emitted s2 = emitted s @ out"
      and h: "conversationHistory s2 = None
          \<or> conversationHistory s2 = Some (storedHistory s @ [userMessage env userInput])"
      and c: "Disconnect \<notin> set (turnHandlers env userInput s) \<longrightarrow>
            conversationHistory s2 = Some (storedHistory s @ [userMessage env userInput])"
      by blast
    have "emitted (catchBlock s2) =
        emitted s @ out @ [AiTyping False, ErrorEvent ''Failed to get AI response'']"
      using e by (simp add: catchBlock_def emit_def)
    moreover have "conversationHistory (catchBlock s2) = conversationHistory s2"
      by (simp add: catchBlock_def emit_def)
    ultimately show ?thesis unfolding r using h c by auto
  qed
  show ?thesis using 1 2 3 4 5 by blast
qed

theorem failed_generation_witness:
  "generate (quietEnv\<lparr>generate := (\<lambda>messages. CreateRejects)\<rparr>)
      (turnPrompt (quietEnv\<lparr>generate := (\<lambda>messages. CreateRejects)\<rparr>) ''hi'' onConnection)
     = CreateRejects
   \<and> fst (processWithChatGPT (quietEnv\<lparr>generate := (\<lambda>messages. CreateRejects)\<rparr>) ''hi'' onConnection)
       = Failed
   \<and> Disconnect \<notin> set (turnHandlers (quietEnv\<lparr>generate := (\<lambda>messages. CreateRejects)\<rparr>) ''hi'' onConnection)
   \<and> conversationHistory
        (snd (processWithChatGPT (quietEnv\<lparr>generate := (\<lambda>messages. CreateRejects)\<rparr>) ''hi'' onConnection))
       = Some [\<lparr>role = User, content = ''hi'', timestamp = 1000\<rparr>]
   \<and> generate brokenStreamEnv (turnPrompt brokenStreamEnv ''hi'' onConnection)
       = Streams ([([], Part ''One.'')] @ ([], StreamThrows) # []) []
   \<and> Interrupt \<notin> set (createAwait brokenStreamEnv @ awaited [([], Part ''One.'')])
   \<and> Disconnect \<notin> set (createAwait brokenStreamEnv @ awaited [([], Part ''One.'')])
   \<and> Disconnect \<notin> set (turnHandlers brokenStreamEnv ''hi'' onConnection)
   \<and> fst (processWithChatGPT brokenStreamEnv ''hi'' onConnection) = Failed
   \<and> conversationHistory (snd (processWithChatGPT brokenStreamEnv ''hi'' onConnection))
       = Some [\<lparr>role = User, content = ''hi'', timestamp = 1000\<rparr>]
   \<and> emitted (snd (processWithChatGPT brokenStreamEnv ''hi'' onConnection))
       = [MessageReceived 1000 ''hi'' False, AiTyping True, AiMessageStart 1500,
          AiToken 1500 ''One.'', AiTyping False, ErrorEvent ''Failed to get AI response'']"
proof -
  let ?env = "quietEnv\<lparr>generate := (\<lambda>messages. CreateRejects)\<rparr>"
  have g: "generate ?env (turnPrompt ?env ''hi'' onConnection) = CreateRejects" by simp
  have d: "Disconnect \<notin> set (turnHandlers ?env ''hi'' onConnection)"
    by (simp add: turnHandlers_def quietEnv_def)
  have h: "storedHistory onConnection @ [userMessage ?env ''hi'']
      = [\<lparr>role = User, content = ''hi'', timestamp = 1000\<rparr>]"
    by (simp add: storedHistory_def onConnection_def userMessage_def quietEnv_def)
  note T = failed_generation_notifies_and_keeps_history[where env = ?env and userInput = "''hi''"
        and s = onConnection]
  from T g have a: "fst (processWithChatGPT ?env ''hi'' onConnection) = Failed"
    by blast
  from T a d have "conversationHistory (snd (processWithChatGPT ?env ''hi'' onConnection)) =
      Some (storedHistory onConnection @ [userMessage ?env ''hi''])"
    by blast
  then have c: "conversationHistory (snd (processWithChatGPT ?env ''hi'' onConnection)) =
      Some [\<lparr>role = User, content = ''hi'', timestamp = 1000\<rparr>]"
    by (simp only: h)
  have g2: "generate brokenStreamEnv (turnPrompt brokenStreamEnv ''hi'' onConnection)
       = Streams ([([], Part ''One.'')] @ ([], StreamThrows) # []) []"
    by (simp add: brokenStreamEnv_def)
  have i2: "Interrupt \<notin> set (createAwait brokenStreamEnv @ awaited [([], Part ''One.'')])"
    and d2: "Disconnect \<notin> set (createAwait brokenStreamEnv @ awaited [([], Part ''One.'')])"
    by (simp_all add: brokenStreamEnv_def quietEnv_def awaited_def)
  have d3: "Disconnect \<notin> set (turnHandlers brokenStreamEnv ''hi'' onConnection)"
    by (simp add: turnHandlers_def brokenStreamEnv_def quietEnv_def awaited_def)
  have h2: "storedHistory onConnection @ [userMessage brokenStreamEnv ''hi'']
      = [\<lparr>role = User, content = ''hi'', timestamp = 1000\<rparr>]"
    by (simp add: storedHistory_def onConnection_def userMessage_def brokenStreamEnv_def quietEnv_def)
  note T2 = failed_generation_notifies_and_keeps_history[where env = brokenStreamEnv
        and userInput = "''hi''" and s = onConnection and pre = "[([], Part ''One.'')]"
        and evs = "[]" and post = "[]" and endAwait = "[]"]
  from T2 g2 i2 d2 have a2: "fst (processWithChatGPT brokenStreamEnv ''hi'' onConnection) = Failed"
    by blast
  from T2 g2 d3 have "conversationHistory (snd (processWithChatGPT brokenStreamEnv ''hi'' onConnection)) =
      Some (storedHistory onConnection @ [userMessage brokenStreamEnv ''hi''])"
    by blast
  then have c2: "conversationHistory (snd (processWithChatGPT brokenStreamEnv ''hi'' onConnection)) =
      Some [\<lparr>role = User, content = ''hi'', timestamp = 1000\<rparr>]"
    by (simp only: h2)
  have e2: "emitted (snd (processWithChatGPT brokenStreamEnv ''hi'' onConnection))
       = [MessageReceived 1000 ''hi'' False, AiTyping True, AiMessageStart 1500,
          AiToken 1500 ''One.'', AiTyping False, ErrorEvent ''Failed to get AI response'']"
    by (simp add: brokenStreamEnv_def turn_eval)
  show ?thesis using g a d c g2 i2 d2 d3 a2 c2 e2 by blast
qed

subsection \<open>Interrupts\<close>

lemma onInterrupt_version: "getVersion (onInterrupt s) = getVersion s + 1"
  by (simp add: handler_defs getVersion_def split: option.splits)

lemma onInterrupt_emitted: "emitted (onInterrupt s) = emitted s @ [AiTyping False]"
  by (simp add: handler_defs split: option.splits)

lemma count_list_pos: "x \<in> set xs \<Longrightarrow> 0 < count_list xs x"
  by (induction xs) auto

lemma interrupted_version:
  assumes "v \<le> getVersion s" and "Interrupt \<in> set evs" and "Disconnect \<notin> set evs"
  shows "getVersion (handleAll evs s) \<noteq> v"
  using assms version_handleAll[of evs s] count_list_pos[of Interrupt evs] by simp

lemma streamLoop_stale_emits:
  "fst (streamLoop v i a parts s) = Stale \<Longrightarrow>
     \<exists>pre. emitted (snd (streamLoop v i a parts s)) = pre @ [AiTyping False]"
  by (induction v i a parts s rule: streamLoop.induct)
     (auto simp add: Let_def emit_def split: if_splits)

lemma streamLoop_stale_grows:
  "fst (streamLoop v i a parts s) = Stale \<Longrightarrow>
     length (emitted s) < length (emitted (snd (streamLoop v i a parts s)))"
proof (induction v i a parts s rule: streamLoop.induct)
  case (3 v i a evs token rest s)
  obtain x where x: "emitted (handleAll evs s) = emitted s @ x"
    using emitted_handleAll by blast
  show ?case
  proof (cases "getVersion (handleAll evs s) \<noteq> v")
    case True
    then show ?thesis using x by (simp add: Let_def emit_def)
  next
    case False
    show ?thesis
    proof (cases "token \<noteq> []")
      case True
      have "length (emitted (emit (AiToken i token) (handleAll evs s)))
          < length (emitted (snd (streamLoop v i (a @ token) rest (emit (AiToken i token) (handleAll evs s)))))"
        using 3(1)[OF refl _ True] 3(3) False True by (simp add: Let_def)
      then show ?thesis using False True x by (simp add: Let_def emit_def)
    next
      case F: False
      have "length (emitted (handleAll evs s))
          < length (emitted (snd (streamLoop v i a rest (handleAll evs s))))"
        using 3(2)[OF refl _ F] 3(3) False F by (simp add: Let_def)
      then show ?thesis using False F x by (simp add: Let_def)
    qed
  qed
qed simp_all

lemma interrupted_item:
  assumes "v \<le> getVersion s" and "Interrupt \<in> set evs" and "Disconnect \<notin> set evs"
  shows "\<exists>r s' out. streamLoop v i a ((evs, item) # post) s = (r, s')
      \<and> (r = Stale \<or> r = Threw)
      \<and> emitted s' = emitted s @ out \<and> filter isAiToken out = []
      \<and> AiTyping False \<in> set out"
proof -
  have st: "getVersion (handleAll evs s) \<noteq> v" using assms by (rule interrupted_version)
  obtain o1 where o1: "emitted (handleAll evs s) = emitted s @ o1"
      "list_all (\<lambda>x. \<not> isAiToken x) o1" "AiTyping False \<in> set o1"
    using emitted_handleAll[of evs s] assms(2) by blast
  have f1: "filter isAiToken o1 = []" using o1(2) by (rule no_tokens_filter)
  show ?thesis
  proof (cases item)
    case (Part token)
    have "streamLoop v i a ((evs, item) # post) s = (Stale, emit (AiTyping False) (handleAll evs s))"
      using st Part by (simp add: Let_def)
    moreover have "emitted (emit (AiTyping False) (handleAll evs s)) = emitted s @ (o1 @ [AiTyping False])"
      using o1 by (simp add: emit_def)
    moreover have "filter isAiToken (o1 @ [AiTyping False]) = []" using f1 by simp
    moreover have "AiTyping False \<in> set (o1 @ [AiTyping False])" by simp
    ultimately show ?thesis by blast
  next
    case StreamThrows
    then have "streamLoop v i a ((evs, item) # post) s = (Threw, handleAll evs s)" by simp
    then show ?thesis using o1 f1 by blast
  qed
qed

lemma interrupted_stream:
  assumes "v \<le> getVersion s" and "Interrupt \<in> set evs" and "Disconnect \<notin> set evs"
  shows "\<exists>r s' out k. streamLoop v i a (pre @ (evs, item) # post) s = (r, s')
      \<and> (r = Stale \<or> r = Threw)
      \<and> emitted s' = emitted s @ out
      \<and> filter isAiToken out = take k (map (AiToken i) (tokensOf pre))
      \<and> (r = Stale \<longrightarrow> AiTyping False \<in> set out)"
proof -
  obtain r0 s0 where l0: "streamLoop v i a pre s = (r0, s0)" by (cases "streamLoop v i a pre s")
  obtain o0 k where o0: "emitted s0 = emitted s @ o0"
      "filter isAiToken o0 = take k (map (AiToken i) (tokensOf pre))"
    using streamLoop_emits[of v i a pre s] l0 by auto
  show ?thesis
  proof (cases r0)
    case (Ended a')
    then have v0: "v \<le> getVersion s0" using streamLoop_version[OF _ assms(1)] l0 by blast
    from interrupted_item[OF v0 assms(2,3), of i a' item post] obtain r s' out where
      it: "streamLoop v i a' ((evs, item) # post) s0 = (r, s')" "r = Stale \<or> r = Threw"
        "emitted s' = emitted s0 @ out" "filter isAiToken out = []" "AiTyping False \<in> set out"
      by blast
    have "streamLoop v i a (pre @ (evs, item) # post) s = (r, s')"
      using l0 Ended it(1) by (simp add: streamLoop_append)
    moreover have "emitted s' = emitted s @ (o0 @ out)" using it(3) o0(1) by simp
    moreover have "filter isAiToken (o0 @ out) = take k (map (AiToken i) (tokensOf pre))"
      using it(4) o0(2) by simp
    moreover have "AiTyping False \<in> set (o0 @ out)" using it(5) by simp
    ultimately show ?thesis using it(2) by blast
  next
    case Stale
    have full: "streamLoop v i a (pre @ (evs, item) # post) s = (Stale, s0)"
      using l0 Stale by (simp add: streamLoop_append)
    obtain p where "emitted s0 = p @ [AiTyping False]"
      using streamLoop_stale_emits[of v i a pre s] l0 Stale by auto
    have "o0 \<noteq> []"
      using streamLoop_stale_grows[of v i a pre s] l0 Stale o0(1) by auto
    then have "last (emitted s @ o0) = last o0" by simp
    moreover have "last (emitted s0) = AiTyping False"
      using \<open>emitted s0 = p @ [AiTyping False]\<close> by simp
    ultimately have "last o0 = AiTyping False" using o0(1) by simp
    then have "AiTyping False \<in> set o0" using \<open>o0 \<noteq> []\<close> last_in_set by metis
    then show ?thesis using full o0 by blast
  next
    case Threw
    have "streamLoop v i a (pre @ (evs, item) # post) s = (Threw, s0)"
      using l0 Threw by (simp add: streamLoop_append)
    then show ?thesis using o0 by blast
  qed
qed

lemma emitted_ttsLoop:
  "\<exists>out. emitted (ttsLoop synth i units sched s) = emitted s @ out
      \<and> list_all (\<lambda>x. \<not> isAiToken x) out"
proof (induction units arbitrary: sched s)
  case Nil
  show ?case by simp
next
  case (Cons sentence rest)
  show ?case
  proof (cases "trim sentence = []")
    case True
    then show ?thesis using Cons.IH[of sched s] by (simp only: ttsLoop_skip)
  next
    case False
    let ?evs = "case sched of [] \<Rightarrow> [] | evs # later \<Rightarrow> evs"
    let ?c = "AiAudioChunk i (convertTextToSpeech synth (trim sentence))"
    let ?s1 = "emit ?c (handleAll ?evs s)"
    obtain o1 where o1: "emitted (handleAll ?evs s) = emitted s @ o1"
        "list_all (\<lambda>x. \<not> isAiToken x) o1"
      using emitted_handleAll by blast
    obtain o2 where o2: "emitted (ttsLoop synth i rest (tl sched) ?s1) = emitted ?s1 @ o2"
        "list_all (\<lambda>x. \<not> isAiToken x) o2"
      using Cons.IH by blast
    have "emitted (ttsLoop synth i (sentence # rest) sched s) = emitted s @ (o1 @ [?c] @ o2)"
      unfolding ttsLoop_step[OF False] using o1 o2 by (simp add: emit_def)
    moreover have "list_all (\<lambda>x. \<not> isAiToken x) (o1 @ [?c] @ o2)"
      using o1 o2 by simp
    ultimately show ?thesis by blast
  qed
qed

lemma emitted_finishTurn:
  "\<exists>out. emitted (finishTurn env history aiResponse s) = emitted s @ out
      \<and> list_all (\<lambda>x. \<not> isAiToken x) out"
proof -
  let ?s3 = "emit (AiMessageDone (aiMessageTime env) aiResponse)
         (emit (AiTyping False)
            (s\<lparr>conversationHistory :=
                 Some (pruneHistory (history @ [assistantMessage env aiResponse]) defaultMaxMessages)\<rparr>))"
  obtain o1 where o1: "emitted (ttsLoop (synthesize env) (aiMessageTime env) (sentencesOf aiResponse)
        (ttsAwaits env) ?s3) = emitted ?s3 @ o1" "list_all (\<lambda>x. \<not> isAiToken x) o1"
    using emitted_ttsLoop by blast
  let ?out = "[AiTyping False, AiMessageDone (aiMessageTime env) aiResponse] @ o1
      @ [AiAudioDone (aiMessageTime env), AiResponse (aiMessageTime env) aiResponse]"
  have "emitted (finishTurn env history aiResponse s) = emitted s @ ?out"
    using o1(1) by (simp add: finishTurn_def Let_def streamTextToSpeech_def emit_def assistantMessage_def)
  moreover have "list_all (\<lambda>x. \<not> isAiToken x) ?out" using o1(2) by simp
  ultimately show ?thesis by blast
qed

text \<open>A consumer that starts with the version already above the captured one.\<close>

lemma overtaken_stream:
  assumes "v < getVersion s" and "Disconnect \<notin> set (awaited parts)"
  shows "\<exists>out. emitted (snd (streamLoop v i a parts s)) = emitted s @ out
      \<and> list_all (\<lambda>x. \<not> isAiToken x) out
      \<and> (parts \<noteq> [] \<longrightarrow> fst (streamLoop v i a parts s) = Stale
            \<or> fst (streamLoop v i a parts s) = Threw)
      \<and> (parts = [] \<longrightarrow> streamLoop v i a parts s = (Ended a, s))"
proof (cases parts)
  case Nil
  then show ?thesis by simp
next
  case (Cons first rest)
  obtain evs item where f: "first = (evs, item)" by (cases first)
  have d: "Disconnect \<notin> set evs" using assms(2) Cons f by (simp add: awaited_def)
  have st: "getVersion (handleAll evs s) \<noteq> v"
    using version_handleAll[OF d, of s] assms(1) by simp
  obtain o1 where o1: "emitted (handleAll evs s) = emitted s @ o1"
      "list_all (\<lambda>x. \<not> isAiToken x) o1"
    using emitted_handleAll by blast
  show ?thesis
  proof (cases item)
    case (Part token)
    have "streamLoop v i a parts s = (Stale, emit (AiTyping False) (handleAll evs s))"
      using st Part Cons f by (simp add: Let_def)
    moreover have "emitted (emit (AiTyping False) (handleAll evs s)) = emitted s @ (o1 @ [AiTyping False])"
      using o1 by (simp add: emit_def)
    moreover have "list_all (\<lambda>x. \<not> isAiToken x) (o1 @ [AiTyping False])" using o1 by simp
    ultimately show ?thesis using Cons by (metis fst_conv snd_conv list.distinct(1))
  next
    case StreamThrows
    then have "streamLoop v i a parts s = (Threw, handleAll evs s)" using Cons f by simp
    then show ?thesis using o1 Cons by (metis fst_conv snd_conv list.distinct(1))
  qed
qed

lemma interrupted_create:
  assumes i: "Interrupt \<in> set (createAwait env)"
    and d: "Disconnect \<notin> set (createAwait env @ scheduleOf (generate env (turnPrompt env userInput s)))"
  shows "(\<exists>out. emitted (snd (processWithChatGPT env userInput s)) = emitted s @ out
            \<and> filter isAiToken out = [] \<and> AiTyping False \<in> set out)
      \<and> (generate env (turnPrompt env userInput s) = Streams (first # rest) endAwait \<longrightarrow>
            fst (processWithChatGPT env userInput s) \<noteq> Completed)"
proof -
  let ?hist = "storedHistory s @ [userMessage env userInput]"
  let ?first = "[MessageReceived (userTime env) userInput
           ((case lastInputSource s of None \<Rightarrow> Text | Some src \<Rightarrow> src) = Voice),
         AiTyping True]"
  obtain s1 where b: "beginTurn env userInput s =
     (getVersion s, ?hist,
      buildMessages (systemPromptEnv env)
        (case conversationPreferences s of None \<Rightarrow> defaultPreferences | Some p \<Rightarrow> p)
        ?hist, s1)"
    and v1: "conversationVersions s1 = conversationVersions s"
    and e1: "emitted s1 = emitted s @ ?first"
    using beginTurn_parts[of env userInput s] by blast
  have p: "turnPrompt env userInput s =
     buildMessages (systemPromptEnv env)
        (case conversationPreferences s of None \<Rightarrow> defaultPreferences | Some p \<Rightarrow> p) ?hist"
    by (simp add: turnPrompt_def b)
  let ?s2 = "handleAll (createAwait env) s1"
  let ?s3 = "emit (AiMessageStart (aiMessageTime env)) ?s2"
  obtain o2 where o2: "emitted ?s2 = emitted s1 @ o2" "list_all (\<lambda>x. \<not> isAiToken x) o2"
      "AiTyping False \<in> set o2"
    using emitted_handleAll[of "createAwait env" s1] i by blast
  have f2: "filter isAiToken o2 = []" using o2(2) by (rule no_tokens_filter)
  have dc: "Disconnect \<notin> set (createAwait env)" using d by simp
  have "getVersion s1 = getVersion s" using v1 by (simp add: getVersion_def)
  then have "getVersion s < getVersion ?s2"
    using version_handleAll[OF dc, of s1] count_list_pos[OF i] by simp
  then have v3: "getVersion s < getVersion ?s3" by (simp add: emit_def getVersion_def)
  show ?thesis
  proof (cases "generate env (turnPrompt env userInput s)")
    case CreateRejects
    then have r: "processWithChatGPT env userInput s = (Failed, catchBlock ?s2)"
      unfolding p by (simp add: processWithChatGPT_def b Let_def)
    let ?out = "?first @ o2 @ [AiTyping False, ErrorEvent ''Failed to get AI response'']"
    have "emitted (catchBlock ?s2) = emitted s @ ?out"
      using o2(1) e1 by (simp add: catchBlock_def emit_def)
    moreover have "filter isAiToken ?out = []" using f2 by simp
    moreover have "AiTyping False \<in> set ?out" by simp
    ultimately show ?thesis using r CreateRejects by (metis snd_conv generation.distinct(1))
  next
    case (Streams parts e)
    have dp: "Disconnect \<notin> set (awaited parts)" using d Streams by simp
    let ?loop = "streamLoop (getVersion s) (aiMessageTime env) [] parts ?s3"
    from overtaken_stream[OF v3 dp, of "aiMessageTime env" "[]"] obtain o3 where
      o3: "emitted (snd ?loop) = emitted ?s3 @ o3" "list_all (\<lambda>x. \<not> isAiToken x) o3"
      and ne: "parts \<noteq> [] \<longrightarrow> fst ?loop = Stale \<or> fst ?loop = Threw"
      and em: "parts = [] \<longrightarrow> ?loop = (Ended [], ?s3)"
      by blast
    have f3: "filter isAiToken o3 = []" using o3(2) by (rule no_tokens_filter)
    have e3: "emitted (snd ?loop) = emitted s @ (?first @ o2 @ [AiMessageStart (aiMessageTime env)] @ o3)"
      using o3(1) o2(1) e1 by (simp add: emit_def)
    have res: "processWithChatGPT env userInput s =
        (case ?loop of
           (Ended aiResponse, s4) \<Rightarrow> (Completed, finishTurn env ?hist aiResponse (handleAll e s4))
         | (Stale, s4) \<Rightarrow> (Aborted, s4)
         | (Threw, s4) \<Rightarrow> (Failed, catchBlock s4))"
      using Streams unfolding p
      by (simp add: processWithChatGPT_def b Let_def split: prod.splits loopResult.splits)
    obtain r s4 where l: "?loop = (r, s4)" by (cases ?loop)
    have e4: "emitted s4 = emitted s @ (?first @ o2 @ [AiMessageStart (aiMessageTime env)] @ o3)"
      using e3 l by simp
    have out: "\<exists>out. emitted (snd (processWithChatGPT env userInput s)) = emitted s @ out
            \<and> filter isAiToken out = [] \<and> AiTyping False \<in> set out"
    proof (cases r)
      case (Ended aiResponse)
      obtain o5 where o5: "emitted (handleAll e s4) = emitted s4 @ o5"
          "list_all (\<lambda>x. \<not> isAiToken x) o5"
        using emitted_handleAll by blast
      obtain o6 where o6: "emitted (finishTurn env ?hist aiResponse (handleAll e s4))
          = emitted (handleAll e s4) @ o6" "list_all (\<lambda>x. \<not> isAiToken x) o6"
        using emitted_finishTurn by blast
      let ?out = "?first @ o2 @ [AiMessageStart (aiMessageTime env)] @ o3 @ o5 @ o6"
      have "emitted (snd (processWithChatGPT env userInput s)) = emitted s @ ?out"
        unfolding res l using Ended o6(1) o5(1) e4 by simp
      moreover have "filter isAiToken ?out = []"
        using f2 f3 no_tokens_filter[OF o5(2)] no_tokens_filter[OF o6(2)] by simp
      moreover have "AiTyping False \<in> set ?out" using o2(3) by simp
      ultimately show ?thesis by blast
    next
      case Stale
      let ?out = "?first @ o2 @ [AiMessageStart (aiMessageTime env)] @ o3"
      have "emitted (snd (processWithChatGPT env userInput s)) = emitted s @ ?out"
        unfolding res l using Stale e4 by simp
      moreover have "filter isAiToken ?out = []" using f2 f3 by simp
      moreover have "AiTyping False \<in> set ?out" using o2(3) by simp
      ultimately show ?thesis by blast
    next
      case Threw
      let ?out = "?first @ o2 @ [AiMessageStart (aiMessageTime env)] @ o3
          @ [AiTyping False, ErrorEvent ''Failed to get AI response'']"
      have "emitted (snd (processWithChatGPT env userInput s)) = emitted s @ ?out"
        unfolding res l using Threw e4 by (simp add: catchBlock_def emit_def)
      moreover have "filter isAiToken ?out = []" using f2 f3 by simp
      moreover have "AiTyping False \<in> set ?out" by simp
      ultimately show ?thesis by blast
    qed
    have nc: "generate env (turnPrompt env userInput s) = Streams (first # rest) endAwait \<longrightarrow>
            fst (processWithChatGPT env userInput s) \<noteq> Completed"
    proof
      assume "generate env (turnPrompt env userInput s) = Streams (first # rest) endAwait"
      then have "parts \<noteq> []" using Streams by simp
      then have "r = Stale \<or> r = Threw" using ne l by simp
      then show "fst (processWithChatGPT env userInput s) \<noteq> Completed"
        unfolding res l by auto
    qed
    show ?thesis using out nc by blast
  qed
qed

text \<open>
  C1. The interrupt handler raises the version by one and emits typing-off. Suppose a
  generation stream is being consumed with a captured version that is not above the
  session's version (versions only grow while the socket is connected), and an interrupt
  is handled while its next item is awaited, with no disconnect next to it. Then the
  version differs from the captured one; if the item is a part, the consumer finds the
  turn stale, emits typing-off and returns without emitting the token. For the turn as a
  whole: it does not complete, typing-off is emitted, and the token events of the turn
  are among those of the items before the interrupt. The same holds for an interrupt
  handled while the call that opens the stream is still pending (the version is
  captured before that call): the turn then emits no token event at all, typing-off is
  emitted, and a stream that yields anything does not complete.
\<close>

theorem interrupt_stops_token_stream:
  "getVersion (onInterrupt s0) = getVersion s0 + 1
   \<and> emitted (onInterrupt s0) = emitted s0 @ [AiTyping False]
   \<and> (versionAtStart \<le> getVersion s \<and> Interrupt \<in> set evs \<and> Disconnect \<notin> set evs \<longrightarrow>
        getVersion (handleAll evs s) \<noteq> versionAtStart
        \<and> streamLoop versionAtStart aiMessageId aiResponse ((evs, Part token) # rest) s
            = (Stale, emit (AiTyping False) (handleAll evs s)))
   \<and> (generate env (turnPrompt env userInput s) = Streams (pre @ (evs, item) # post) endAwait
        \<and> Interrupt \<in> set evs \<and> Disconnect \<notin> set (createAwait env @ evs) \<longrightarrow>
        fst (processWithChatGPT env userInput s) \<noteq> Completed
        \<and> (\<exists>out k. emitted (snd (processWithChatGPT env userInput s)) = emitted s @ out
              \<and> filter isAiToken out = take k (map (AiToken (aiMessageTime env)) (tokensOf pre))
              \<and> AiTyping False \<in> set out))
   \<and> (Interrupt \<in> set (createAwait env)
        \<and> Disconnect \<notin> set (createAwait env @ scheduleOf (generate env (turnPrompt env userInput s))) \<longrightarrow>
        (\<exists>out. emitted (snd (processWithChatGPT env userInput s)) = emitted s @ out
              \<and> filter isAiToken out = [] \<and> AiTyping False \<in> set out)
        \<and> (generate env (turnPrompt env userInput s) = Streams (first # others) endAwait' \<longrightarrow>
              fst (processWithChatGPT env userInput s) \<noteq> Completed))"
proof -
  have 3: "getVersion (handleAll evs s) \<noteq> versionAtStart
        \<and> streamLoop versionAtStart aiMessageId aiResponse ((evs, Part token) # rest) s
            = (Stale, emit (AiTyping False) (handleAll evs s))"
    if "versionAtStart \<le> getVersion s" "Interrupt \<in> set evs" "Disconnect \<notin> set evs"
    using interrupted_version[OF that] by (simp add: Let_def)
  have 4: "fst (processWithChatGPT env userInput s) \<noteq> Completed
        \<and> (\<exists>out k. emitted (snd (processWithChatGPT env userInput s)) = emitted s @ out
              \<and> filter isAiToken out = take k (map (AiToken (aiMessageTime env)) (tokensOf pre))
              \<and> AiTyping False \<in> set out)"
    if g: "generate env (turnPrompt env userInput s) = Streams (pre @ (evs, item) # post) endAwait"
      and i: "Interrupt \<in> set evs" and d: "Disconnect \<notin> set (createAwait env @ evs)"
  proof -
    let ?hist = "storedHistory s @ [userMessage env userInput]"
    let ?first = "[MessageReceived (userTime env) userInput
             ((case lastInputSource s of None \<Rightarrow> Text | Some src \<Rightarrow> src) = Voice),
           AiTyping True]"
    obtain s1 where b: "beginTurn env userInput s =
       (getVersion s, ?hist,
        buildMessages (systemPromptEnv env)
          (case conversationPreferences s of None \<Rightarrow> defaultPreferences | Some p \<Rightarrow> p)
          ?hist, s1)"
      and v1: "conversationVersions s1 = conversationVersions s"
      and e1: "emitted s1 = emitted s @ ?first"
      using beginTurn_parts[of env userInput s] by blast
    have p: "turnPrompt env userInput s =
       buildMessages (systemPromptEnv env)
          (case conversationPreferences s of None \<Rightarrow> defaultPreferences | Some p \<Rightarrow> p) ?hist"
      by (simp add: turnPrompt_def b)
    let ?s2 = "handleAll (createAwait env) s1"
    let ?s3 = "emit (AiMessageStart (aiMessageTime env)) ?s2"
    obtain o2 where o2: "emitted ?s2 = emitted s1 @ o2" "list_all (\<lambda>x. \<not> isAiToken x) o2"
      using emitted_handleAll by blast
    have f2: "filter isAiToken o2 = []" using o2(2) by (rule no_tokens_filter)
    have "getVersion s1 = getVersion s" using v1 by (simp add: getVersion_def)
    then have "getVersion s \<le> getVersion ?s2"
      using version_handleAll[of "createAwait env" s1] d by simp
    then have v3: "getVersion s \<le> getVersion ?s3" by (simp add: emit_def getVersion_def)
    have d': "Disconnect \<notin> set evs" using d by simp
    from interrupted_stream[OF v3 i d', of "aiMessageTime env" "[]" pre item post]
    obtain r s' out k where
      l: "streamLoop (getVersion s) (aiMessageTime env) [] (pre @ (evs, item) # post) ?s3 = (r, s')"
      and rr: "r = Stale \<or> r = Threw"
      and eo: "emitted s' = emitted ?s3 @ out"
      and fo: "filter isAiToken out = take k (map (AiToken (aiMessageTime env)) (tokensOf pre))"
      and ty: "r = Stale \<longrightarrow> AiTyping False \<in> set out"
      by blast
    have e3: "emitted s' = emitted s @ (?first @ o2 @ [AiMessageStart (aiMessageTime env)] @ out)"
      using eo o2(1) e1 by (simp add: emit_def)
    have f3: "filter isAiToken (?first @ o2 @ [AiMessageStart (aiMessageTime env)] @ out)
        = take k (map (AiToken (aiMessageTime env)) (tokensOf pre))"
      using f2 fo by simp
    from rr show ?thesis
    proof
      assume s: "r = Stale"
      have res: "processWithChatGPT env userInput s = (Aborted, s')"
        using g l s unfolding p by (simp add: processWithChatGPT_def b Let_def)
      have "AiTyping False \<in> set (?first @ o2 @ [AiMessageStart (aiMessageTime env)] @ out)"
        using ty s by simp
      then show ?thesis using res e3 f3 by (metis fst_conv snd_conv outcome.distinct(1))
    next
      assume t: "r = Threw"
      have res: "processWithChatGPT env userInput s = (Failed, catchBlock s')"
        using g l t unfolding p by (simp add: processWithChatGPT_def b Let_def)
      let ?out = "?first @ o2 @ [AiMessageStart (aiMessageTime env)] @ out
            @ [AiTyping False, ErrorEvent ''Failed to get AI response'']"
      have "emitted (catchBlock s') = emitted s @ ?out"
        using e3 by (simp add: catchBlock_def emit_def)
      moreover have "filter isAiToken ?out = take k (map (AiToken (aiMessageTime env)) (tokensOf pre))"
        using f2 fo by simp
      moreover have "AiTyping False \<in> set ?out" by simp
      ultimately show ?thesis using res by (metis fst_conv snd_conv outcome.distinct(3))
    qed
  qed
  have 5: "(\<exists>out. emitted (snd (processWithChatGPT env userInput s)) = emitted s @ out
              \<and> filter isAiToken out = [] \<and> AiTyping False \<in> set out)
        \<and> (generate env (turnPrompt env userInput s) = Streams (first # others) endAwait' \<longrightarrow>
              fst (processWithChatGPT env userInput s) \<noteq> Completed)"
    if "Interrupt \<in> set (createAwait env)"
      "Disconnect \<notin> set (createAwait env @ scheduleOf (generate env (turnPrompt env userInput s)))"
    using interrupted_create[OF that] by blast
  show ?thesis using onInterrupt_version onInterrupt_emitted 3 4 5 by blast
qed

theorem interrupt_stops_token_stream_witness:
  "generate bargeInEnv (turnPrompt bargeInEnv ''tell me a long story'' onConnection)
     = Streams ([([], Part ''Once'')] @ ([Interrupt], Part '' upon'') # [([], Part '' a time.'')]) []
   \<and> Interrupt \<in> set [Interrupt]
   \<and> Disconnect \<notin> set (createAwait bargeInEnv @ [Interrupt])
   \<and> fst (processWithChatGPT bargeInEnv ''tell me a long story'' onConnection) \<noteq> Completed
   \<and> (0::nat) \<le> getVersion onConnection
   \<and> streamLoop 0 1500 ''Once'' [([Interrupt], Part '' upon''), ([], Part '' a time.'')] onConnection
       = (Stale, emit (AiTyping False) (handleAll [Interrupt] onConnection))
   \<and> emitted (snd (processWithChatGPT bargeInEnv ''tell me a long story'' onConnection))
       = [MessageReceived 1000 ''tell me a long story'' False, AiTyping True,
          AiMessageStart 1500, AiToken 1500 ''Once'', AiTyping False, AiTyping False]
   \<and> Interrupt \<in> set (createAwait earlyBargeInEnv)
   \<and> Disconnect \<notin> set (createAwait earlyBargeInEnv
        @ scheduleOf (generate earlyBargeInEnv
            (turnPrompt earlyBargeInEnv ''tell me a long story'' onConnection)))
   \<and> generate earlyBargeInEnv (turnPrompt earlyBargeInEnv ''tell me a long story'' onConnection)
       = Streams (([], Part ''One.'') # [([], Part '' Two.'')]) []
   \<and> fst (processWithChatGPT earlyBargeInEnv ''tell me a long story'' onConnection) \<noteq> Completed
   \<and> emitted (snd (processWithChatGPT earlyBargeInEnv ''tell me a long story'' onConnection))
       = [MessageReceived 1000 ''tell me a long story'' False, AiTyping True, AiTyping False,
          AiMessageStart 1500, AiTyping False]"
proof -
  let ?s = onConnection
  have g: "generate bargeInEnv (turnPrompt bargeInEnv ''tell me a long story'' ?s)
     = Streams ([([], Part ''Once'')] @ ([Interrupt], Part '' upon'') # [([], Part '' a time.'')]) []"
    by (simp add: bargeInEnv_def)
  have i: "Interrupt \<in> set [Interrupt]" by simp
  have d: "Disconnect \<notin> set (createAwait bargeInEnv @ [Interrupt])"
    by (simp add: bargeInEnv_def quietEnv_def)
  have v: "(0::nat) \<le> getVersion ?s" by simp
  note T = interrupt_stops_token_stream[where s = ?s and env = bargeInEnv
      and userInput = "''tell me a long story''" and pre = "[([], Part ''Once'')]"
      and evs = "[Interrupt]" and item = "Part '' upon''" and post = "[([], Part '' a time.'')]"
      and endAwait = "[]" and versionAtStart = 0 and aiMessageId = 1500 and aiResponse = "''Once''"
      and token = "'' upon''" and rest = "[([], Part '' a time.'')]"]
  from T g i d have a: "fst (processWithChatGPT bargeInEnv ''tell me a long story'' ?s) \<noteq> Completed"
    by blast
  from T v i d have b: "streamLoop 0 1500 ''Once'' [([Interrupt], Part '' upon''), ([], Part '' a time.'')] ?s
       = (Stale, emit (AiTyping False) (handleAll [Interrupt] ?s))"
    by simp
  have e: "emitted (snd (processWithChatGPT bargeInEnv ''tell me a long story'' ?s))
       = [MessageReceived 1000 ''tell me a long story'' False, AiTyping True,
          AiMessageStart 1500, AiToken 1500 ''Once'', AiTyping False, AiTyping False]"
    by (simp add: bargeInEnv_def turn_eval)
  have i5: "Interrupt \<in> set (createAwait earlyBargeInEnv)"
    by (simp add: earlyBargeInEnv_def)
  have g5: "generate earlyBargeInEnv (turnPrompt earlyBargeInEnv ''tell me a long story'' ?s)
       = Streams (([], Part ''One.'') # [([], Part '' Two.'')]) []"
    by (simp add: earlyBargeInEnv_def quietEnv_def)
  have d5: "Disconnect \<notin> set (createAwait earlyBargeInEnv
        @ scheduleOf (generate earlyBargeInEnv
            (turnPrompt earlyBargeInEnv ''tell me a long story'' ?s)))"
    unfolding g5 by (simp add: earlyBargeInEnv_def awaited_def)
  note T5 = interrupt_stops_token_stream[where s = ?s and env = earlyBargeInEnv
      and userInput = "''tell me a long story''" and first = "([], Part ''One.'')"
      and others = "[([], Part '' Two.'')]" and endAwait' = "[]"]
  from T5 i5 d5 g5
  have a5: "fst (processWithChatGPT earlyBargeInEnv ''tell me a long story'' ?s) \<noteq> Completed"
    by blast
  have e5: "emitted (snd (processWithChatGPT earlyBargeInEnv ''tell me a long story'' ?s))
       = [MessageReceived 1000 ''tell me a long story'' False, AiTyping True, AiTyping False,
          AiMessageStart 1500, AiTyping False]"
    by (simp add: earlyBargeInEnv_def turn_eval)
  show ?thesis using g i d a v b e i5 d5 g5 a5 e5 by blast
qed

text \<open>
  C2 fails on the code. \<^verbatim>\<open>streamTextToSpeech\<close> reads \<^verbatim>\<open>currentVersion\<close> from the map and
  compares it with the map at once (index.ts 715-719), not with the version captured when
  the turn began, so the check never fires. Here the reply is \<open>One. Two.\<close>, the turn
  began at version 0 and an interrupt is handled while the first unit is synthesized
  (the version is 1 from then on): the chunk of the second unit is emitted all the same.
\<close>

theorem speech_continues_after_interrupt:
  "processWithChatGPT lateBargeInEnv ''hi'' onConnection =
     (Completed, snd (processWithChatGPT lateBargeInEnv ''hi'' onConnection))
   \<and> emitted (snd (processWithChatGPT lateBargeInEnv ''hi'' onConnection))
       = [MessageReceived 1000 ''hi'' False, AiTyping True, AiMessageStart 1500,
          AiToken 1500 ''One.'', AiToken 1500 '' Two.'', AiTyping False,
          AiMessageDone 1500 ''One. Two.'',
          AiTyping False,
          AiAudioChunk 1500 [1, 1, 1, 1],
          AiAudioChunk 1500 [1, 1, 1, 1],
          AiAudioDone 1500, AiResponse 1500 ''One. Two.'']
   \<and> getVersion onConnection = 0
   \<and> getVersion (snd (processWithChatGPT lateBargeInEnv ''hi'' onConnection)) = 1"
  by (simp add: lateBargeInEnv_def turn_eval)

subsection \<open>The call coalescer\<close>

lemma trim_rev_fixed: "dropWhile isWhiteSpace (rev (trim s)) = rev (trim s)"
  by (simp add: trim_def dropWhile_idem)

lemma trim_front_fixed: "dropWhile isWhiteSpace (trim s) = trim s"
proof -
  define d where "d = dropWhile isWhiteSpace s"
  define n where "n = length (takeWhile isWhiteSpace (rev d))"
  have "trim s = rev (dropWhile isWhiteSpace (rev d))"
    by (simp add: trim_def d_def)
  also have "\<dots> = rev (drop n (rev d))"
    by (simp only: dropWhile_eq_drop n_def)
  also have "\<dots> = take (length d - n) d"
    by (simp add: rev_drop)
  finally have t: "trim s = take (length d - n) d" .
  show ?thesis
  proof (cases "trim s = []")
    case True
    then show ?thesis by simp
  next
    case False
    then have ne: "d \<noteq> []" and pos: "0 < length d - n" using t by auto
    have "hd (trim s) = hd d" using pos unfolding t by (simp add: hd_conv_nth ne)
    moreover have "\<not> isWhiteSpace (hd d)" using ne unfolding d_def by (rule hd_dropWhile)
    ultimately have "\<not> isWhiteSpace (hd (trim s))" by simp
    then show ?thesis using False by (cases "trim s") simp_all
  qed
qed

lemma trim_idem: "trim (trim s) = trim s"
proof -
  have "trim (trim s) = rev (dropWhile isWhiteSpace (rev (trim s)))"
    unfolding trim_def[of "trim s"] by (simp only: trim_front_fixed)
  then show ?thesis by (simp add: trim_rev_fixed)
qed

lemma inv_onConnection: "coalescerInv onConnection"
  by (simp add: coalescerInv_def onConnection_def)

lemma inv_trigger: "coalescerInv s \<Longrightarrow> coalescerInv (triggerChatGPTWithWait now userInput queueOnly s)"
  by (auto simp add: coalescerInv_def triggerChatGPTWithWait_def Let_def emit_def trim_idem
      split: option.splits if_splits)

lemma inv_callReturns: "coalescerInv s \<Longrightarrow> coalescerInv (callReturns now s)"
  by (auto simp add: coalescerInv_def callReturns_def split: list.splits option.splits if_splits)

lemma inv_disconnect: "coalescerInv s \<Longrightarrow> coalescerInv (onDisconnect s)"
  by (simp add: coalescerInv_def onDisconnect_def split: option.splits)

lemma inv_idle_trigger:
  assumes "length (inFlightCalls s) + length (waitTimeouts s) = 0"
    and "\<not> isWaiting (callState s)" and "pendingInput (callState s) = None"
  shows "coalescerInv (triggerChatGPTWithWait now userInput False s)"
  using assms
  by (auto simp add: coalescerInv_def triggerChatGPTWithWait_def Let_def emit_def)

lemma inv_fires: "coalescerInv s \<Longrightarrow> coalescerInv (waitTimerFires now s)"
proof (cases "List.find (\<lambda>deadline. deadline \<le> now) (waitTimeouts s)")
  case None
  assume "coalescerInv s"
  then show ?thesis using None by (simp add: waitTimerFires_def)
next
  case (Some d)
  assume inv: "coalescerInv s"
  have din: "d \<in> set (waitTimeouts s)" using Some by (auto simp add: find_Some_iff)
  then have w: "isWaiting (callState s)" and one: "length (inFlightCalls s) + length (waitTimeouts s) = 1"
    using inv by (auto simp add: coalescerInv_def split: if_splits)
  let ?s1 = "s\<lparr>waitTimeouts := remove1 d (waitTimeouts s),
               callState := (callState s)\<lparr>isWaiting := False\<rparr>\<rparr>"
  have len: "length (remove1 d (waitTimeouts s)) = length (waitTimeouts s) - 1"
    using din by (simp add: length_remove1)
  have wl: "length (waitTimeouts s) \<ge> 1" using din by (cases "waitTimeouts s") auto
  have "length (inFlightCalls s) = 0 \<and> length (waitTimeouts s) = 1"
    using one wl by arith
  then have "length (inFlightCalls s) = 0 \<and> length (remove1 d (waitTimeouts s)) = 0"
    using len by simp
  then have zero: "length (inFlightCalls ?s1) + length (waitTimeouts ?s1) = 0"
    by simp
  show ?thesis
  proof (cases "pendingInput (callState s)")
    case None
    then have "waitTimerFires now s = ?s1" using Some by (simp add: waitTimerFires_def Let_def)
    then show ?thesis using zero None by (simp add: coalescerInv_def)
  next
    case (Some p)
    then have pne: "p \<noteq> []" using inv by (simp add: coalescerInv_def)
    let ?s2 = "?s1\<lparr>callState := (callState ?s1)\<lparr>pendingInput := None\<rparr>\<rparr>"
    have r: "waitTimerFires now s = triggerChatGPTWithWait now p False ?s2"
      using \<open>List.find (\<lambda>deadline. deadline \<le> now) (waitTimeouts s) = Some d\<close> Some pne
      by (simp add: waitTimerFires_def Let_def)
    have "coalescerInv (triggerChatGPTWithWait now p False ?s2)"
      by (rule inv_idle_trigger) (use zero in simp_all)
    then show ?thesis using r by simp
  qed
qed

lemma inv_step: "coalescerInv s \<Longrightarrow> coalescerInv (coalescerStep s e)"
  by (cases e) (simp_all add: inv_trigger inv_callReturns inv_fires inv_disconnect)

lemma inv_run: "coalescerInv s \<Longrightarrow> coalescerInv (coalescerRun s evs)"
  unfolding coalescerRun_def by (induction evs arbitrary: s) (simp_all add: inv_step)

lemma trigger_blank:
  "trim userInput = [] \<Longrightarrow>
     triggerChatGPTWithWait now userInput queueOnly s = emit ProcessingComplete s"
  by (simp add: triggerChatGPTWithWait_def)

lemma trigger_idle:
  "trim userInput \<noteq> [] \<Longrightarrow> chatGPTCallStates s \<Longrightarrow> \<not> isWaiting (callState s) \<Longrightarrow>
     triggerChatGPTWithWait now userInput False s =
       s\<lparr>callState := (callState s)\<lparr>isWaiting := True, lastCallTime := now\<rparr>,
         inFlightCalls := inFlightCalls s @ [trim userInput],
         downstreamCalls := downstreamCalls s @ [(now, trim userInput)]\<rparr>"
  by (simp add: triggerChatGPTWithWait_def Let_def)

lemma trigger_busy:
  "trim userInput \<noteq> [] \<Longrightarrow> chatGPTCallStates s \<Longrightarrow> isWaiting (callState s) \<Longrightarrow>
     triggerChatGPTWithWait now userInput queueOnly s =
       s\<lparr>callState := (callState s)\<lparr>pendingInput := Some (trim userInput)\<rparr>\<rparr>"
  by (simp add: triggerChatGPTWithWait_def Let_def)

lemma trigger_queue_idle:
  "trim userInput \<noteq> [] \<Longrightarrow> chatGPTCallStates s \<Longrightarrow> \<not> isWaiting (callState s) \<Longrightarrow>
     triggerChatGPTWithWait now userInput True s =
       s\<lparr>callState := (callState s)\<lparr>pendingInput := Some (trim userInput),
                                     isWaiting := True, lastCallTime := now\<rparr>,
         waitTimeouts := waitTimeouts s @ [now + waitTime]\<rparr>"
  by (simp add: triggerChatGPTWithWait_def Let_def)

lemma fires_early:
  "waitTimeouts s = [d] \<Longrightarrow> now < d \<Longrightarrow> waitTimerFires now s = s"
  by (simp add: waitTimerFires_def)

lemma fires_replays:
  assumes "waitTimeouts s = [d]" and "d \<le> now" and "chatGPTCallStates s"
    and "pendingInput (callState s) = Some p" and "p \<noteq> []" and "trim p = p"
  shows "waitTimerFires now s =
       s\<lparr>waitTimeouts := [],
         callState := (callState s)\<lparr>isWaiting := True, lastCallTime := now, pendingInput := None\<rparr>,
         inFlightCalls := inFlightCalls s @ [p],
         downstreamCalls := downstreamCalls s @ [(now, p)]\<rparr>"
  using assms by (simp add: waitTimerFires_def Let_def triggerChatGPTWithWait_def)

text \<open>
  C4 (as amended). In every state the coalescer of a session reaches from its connection,
  whatever the triggers (normal or queue-only), returns of the downstream call, timer
  firings and disconnects: at most one downstream call is in flight, and while it is in
  flight no wait-window timer is armed; a pending input is held only while the session
  is waiting, that is while the call is in flight or the one timer is armed. The timer
  is armed for 400 ms at the moment the call returns, or by a queue-only trigger that
  finds the coalescer idle; it cannot fire before its deadline; when it fires at or
  after it on a connected session, the pending input is passed to a new downstream call
  at once and cleared. So a pending input waits for the return of the call in flight
  and then for the wait window.
\<close>

theorem coalescer_one_call_in_flight:
  assumes "w = coalescerRun onConnection evs"
  shows "length (inFlightCalls w) \<le> 1
   \<and> (inFlightCalls w \<noteq> [] \<longrightarrow> waitTimeouts w = [])
   \<and> (pendingInput (callState w) = Some p \<longrightarrow>
        isWaiting (callState w) \<and> (inFlightCalls w \<noteq> [] \<or> (\<exists>d. waitTimeouts w = [d])))
   \<and> (inFlightCalls w \<noteq> [] \<longrightarrow>
        waitTimeouts (callReturns now w) = [now + waitTime] \<and> inFlightCalls (callReturns now w) = [])
   \<and> (chatGPTCallStates w \<and> \<not> isWaiting (callState w) \<and> trim x \<noteq> [] \<longrightarrow>
        waitTimeouts (triggerChatGPTWithWait now x True w) = [now + waitTime]
        \<and> pendingInput (callState (triggerChatGPTWithWait now x True w)) = Some (trim x)
        \<and> downstreamCalls (triggerChatGPTWithWait now x True w) = downstreamCalls w)
   \<and> (waitTimeouts w = [d] \<and> now < d \<longrightarrow> waitTimerFires now w = w)
   \<and> (chatGPTCallStates w \<and> pendingInput (callState w) = Some p \<and> waitTimeouts w = [d] \<and> d \<le> now \<longrightarrow>
        downstreamCalls (waitTimerFires now w) = downstreamCalls w @ [(now, p)]
        \<and> inFlightCalls (waitTimerFires now w) = [p]
        \<and> pendingInput (callState (waitTimerFires now w)) = None)"
proof -
  have inv: "coalescerInv w" unfolding assms by (rule inv_run) (rule inv_onConnection)
  then have count: "length (inFlightCalls w) + length (waitTimeouts w) = (if isWaiting (callState w) then 1 else 0)"
    by (simp add: coalescerInv_def)
  have 1: "length (inFlightCalls w) \<le> 1" using count by (simp split: if_splits)
  have 2: "inFlightCalls w \<noteq> [] \<longrightarrow> waitTimeouts w = []"
    using count by (cases "inFlightCalls w") (simp_all split: if_splits)
  have 3: "pendingInput (callState w) = Some p \<longrightarrow>
        isWaiting (callState w) \<and> (inFlightCalls w \<noteq> [] \<or> (\<exists>d. waitTimeouts w = [d]))"
  proof
    assume pd: "pendingInput (callState w) = Some p"
    then have wt: "isWaiting (callState w)" using inv by (simp add: coalescerInv_def)
    then have "length (inFlightCalls w) + length (waitTimeouts w) = 1" using count by simp
    then have "inFlightCalls w \<noteq> [] \<or> (\<exists>d. waitTimeouts w = [d])"
      by (cases "inFlightCalls w"; cases "waitTimeouts w") auto
    then show "isWaiting (callState w) \<and> (inFlightCalls w \<noteq> [] \<or> (\<exists>d. waitTimeouts w = [d]))"
      using wt by simp
  qed
  have 4: "inFlightCalls w \<noteq> [] \<longrightarrow>
        waitTimeouts (callReturns now w) = [now + waitTime] \<and> inFlightCalls (callReturns now w) = []"
    using 1 2 by (cases "inFlightCalls w") (simp_all add: callReturns_def)
  have 5: "chatGPTCallStates w \<and> \<not> isWaiting (callState w) \<and> trim x \<noteq> [] \<longrightarrow>
        waitTimeouts (triggerChatGPTWithWait now x True w) = [now + waitTime]
        \<and> pendingInput (callState (triggerChatGPTWithWait now x True w)) = Some (trim x)
        \<and> downstreamCalls (triggerChatGPTWithWait now x True w) = downstreamCalls w"
    using count by (auto simp add: trigger_queue_idle)
  have 6: "waitTimeouts w = [d] \<and> now < d \<longrightarrow> waitTimerFires now w = w"
    by (simp add: fires_early)
  have 7: "chatGPTCallStates w \<and> pendingInput (callState w) = Some p \<and> waitTimeouts w = [d] \<and> d \<le> now \<longrightarrow>
        downstreamCalls (waitTimerFires now w) = downstreamCalls w @ [(now, p)]
        \<and> inFlightCalls (waitTimerFires now w) = [p]
        \<and> pendingInput (callState (waitTimerFires now w)) = None"
  proof
    assume a: "chatGPTCallStates w \<and> pendingInput (callState w) = Some p \<and> waitTimeouts w = [d] \<and> d \<le> now"
    then have pp: "p \<noteq> []" "trim p = p" using inv by (simp_all add: coalescerInv_def)
    have nf: "inFlightCalls w = []" using a 2 by auto
    show "downstreamCalls (waitTimerFires now w) = downstreamCalls w @ [(now, p)]
        \<and> inFlightCalls (waitTimerFires now w) = [p]
        \<and> pendingInput (callState (waitTimerFires now w)) = None"
      using a pp nf by (simp add: fires_replays[where d = d and p = p])
  qed
  show ?thesis using 1 2 3 4 5 6 7 by blast
qed

lemmas coalescer_eval =
  coalescerRun_def triggerChatGPTWithWait_def callReturns_def waitTimerFires_def
  onConnection_def onDisconnect_def emit_def waitTime_def trim_def isWhiteSpace_def Let_def

theorem coalescer_one_call_in_flight_witness:
  "inFlightCalls (coalescerRun onConnection [Trigger 0 ''a'' False, Trigger 50 ''b'' False]) = [''a'']
   \<and> pendingInput (callState (coalescerRun onConnection [Trigger 0 ''a'' False, Trigger 50 ''b'' False]))
       = Some ''b''
   \<and> waitTimeouts (coalescerRun onConnection [Trigger 0 ''a'' False, Trigger 50 ''b'' False]) = []
   \<and> waitTimeouts (callReturns 5000 (coalescerRun onConnection [Trigger 0 ''a'' False, Trigger 50 ''b'' False]))
       = [5000 + waitTime]
   \<and> waitTimeouts (coalescerRun onConnection
        [Trigger 0 ''a'' False, Trigger 50 ''b'' False, CallReturns 5000]) = [5400]
   \<and> waitTimerFires 5399 (coalescerRun onConnection
        [Trigger 0 ''a'' False, Trigger 50 ''b'' False, CallReturns 5000])
       = coalescerRun onConnection [Trigger 0 ''a'' False, Trigger 50 ''b'' False, CallReturns 5000]
   \<and> downstreamCalls (waitTimerFires 5400 (coalescerRun onConnection
        [Trigger 0 ''a'' False, Trigger 50 ''b'' False, CallReturns 5000]))
       = [(0, ''a''), (5400, ''b'')]
   \<and> waitTimeouts (triggerChatGPTWithWait 7 ''partial text'' True (coalescerRun onConnection []))
       = [7 + waitTime]"
proof -
  let ?w1 = "coalescerRun onConnection [Trigger 0 ''a'' False, Trigger 50 ''b'' False]"
  let ?w2 = "coalescerRun onConnection [Trigger 0 ''a'' False, Trigger 50 ''b'' False, CallReturns 5000]"
  let ?w0 = "coalescerRun onConnection []"
  have f1: "inFlightCalls ?w1 = [''a'']" by (simp add: coalescer_eval)
  have p1: "pendingInput (callState ?w1) = Some ''b''" by (simp add: coalescer_eval)
  have t2: "waitTimeouts ?w2 = [5400]" by (simp add: coalescer_eval)
  have p2: "pendingInput (callState ?w2) = Some ''b''" by (simp add: coalescer_eval)
  have c2: "chatGPTCallStates ?w2" by (simp add: coalescer_eval)
  have d2: "downstreamCalls ?w2 = [(0, ''a'')]" by (simp add: coalescer_eval)
  have i0: "chatGPTCallStates ?w0 \<and> \<not> isWaiting (callState ?w0) \<and> trim ''partial text'' \<noteq> []"
    by (simp add: coalescer_eval)
  note T1 = coalescer_one_call_in_flight[where w = ?w1 and p = "''b''" and now = 5000, OF refl]
  note T2 = coalescer_one_call_in_flight[where w = ?w2 and p = "''b''" and d = 5400 and now = 5399, OF refl]
  note T3 = coalescer_one_call_in_flight[where w = ?w2 and p = "''b''" and d = 5400 and now = 5400, OF refl]
  note T4 = coalescer_one_call_in_flight[where w = ?w0 and x = "''partial text''" and now = 7, OF refl]
  from T1 f1 have a: "waitTimeouts ?w1 = []"
    and b: "waitTimeouts (callReturns 5000 ?w1) = [5000 + waitTime]" by simp_all
  from T2 t2 have c: "waitTimerFires 5399 ?w2 = ?w2" by simp
  from T3 t2 p2 c2 have "downstreamCalls (waitTimerFires 5400 ?w2) = downstreamCalls ?w2 @ [(5400, ''b'')]"
    by simp
  then have e: "downstreamCalls (waitTimerFires 5400 ?w2) = [(0, ''a''), (5400, ''b'')]"
    by (simp only: d2 append.simps)
  from T4 i0 have g: "waitTimeouts (triggerChatGPTWithWait 7 ''partial text'' True ?w0) = [7 + waitTime]"
    by blast
  show ?thesis using f1 p1 a b t2 c e g by blast
qed

text \<open>
  C4 as stated fails in its latency bound. Input \<open>a\<close> is triggered at 0 ms and starts the
  downstream call; \<open>b\<close> is triggered at 50 ms and is queued. While the call for \<open>a\<close> runs
  no timer is armed: at 450 ms, one wait window after \<open>b\<close> was queued, nothing can fire
  and \<open>b\<close> is still pending. The call returns at 5000 ms, the timer is armed for 5400 ms,
  and \<open>b\<close> is processed then: 5350 ms after it was queued.
\<close>

theorem pending_input_waits_for_running_call:
  "pendingInput (callState (coalescerRun onConnection
      [Trigger 0 ''a'' False, Trigger 50 ''b'' False, WaitTimerFires 450])) = Some ''b''
   \<and> downstreamCalls (coalescerRun onConnection
      [Trigger 0 ''a'' False, Trigger 50 ''b'' False, WaitTimerFires 450]) = [(0, ''a'')]
   \<and> waitTimeouts (coalescerRun onConnection
      [Trigger 0 ''a'' False, Trigger 50 ''b'' False, WaitTimerFires 450]) = []
   \<and> downstreamCalls (coalescerRun onConnection
      [Trigger 0 ''a'' False, Trigger 50 ''b'' False, WaitTimerFires 450,
       CallReturns 5000, WaitTimerFires 5399]) = [(0, ''a'')]
   \<and> downstreamCalls (coalescerRun onConnection
      [Trigger 0 ''a'' False, Trigger 50 ''b'' False, WaitTimerFires 450,
       CallReturns 5000, WaitTimerFires 5399, WaitTimerFires 5400]) = [(0, ''a''), (5400, ''b'')]
   \<and> \<not> (5400 - 50 \<le> waitTime)"
  by (simp add: coalescer_eval)

lemma run_Cons: "coalescerRun s (e # evs) = coalescerRun (coalescerStep s e) evs"
  by (simp add: coalescerRun_def)

lemma run_Nil: "coalescerRun s [] = s"
  by (simp add: coalescerRun_def)

lemma run_snoc: "coalescerRun s (evs @ [e]) = coalescerStep (coalescerRun s evs) e"
  by (simp add: coalescerRun_def)

lemma trigger_while_waiting:
  assumes "chatGPTCallStates s" and "isWaiting (callState s)"
  shows "inFlightCalls (triggerChatGPTWithWait now x False s) = inFlightCalls s
     \<and> downstreamCalls (triggerChatGPTWithWait now x False s) = downstreamCalls s
     \<and> waitTimeouts (triggerChatGPTWithWait now x False s) = waitTimeouts s
     \<and> chatGPTCallStates (triggerChatGPTWithWait now x False s)
     \<and> isWaiting (callState (triggerChatGPTWithWait now x False s))
     \<and> pendingInput (callState (triggerChatGPTWithWait now x False s))
         = (if trim x = [] then pendingInput (callState s) else Some (trim x))"
  using assms by (simp add: triggerChatGPTWithWait_def Let_def emit_def)

lemma returns_while_waiting:
  assumes "inFlightCalls s = [c]" and "waitTimeouts s = []"
  shows "inFlightCalls (callReturns now s) = []
     \<and> downstreamCalls (callReturns now s) = downstreamCalls s
     \<and> waitTimeouts (callReturns now s) = [now + waitTime]
     \<and> chatGPTCallStates (callReturns now s) = chatGPTCallStates s
     \<and> callState (callReturns now s) = callState s"
  using assms by (simp add: callReturns_def)

text \<open>The state after the burst: whatever the position of the return of the first call
  among the second and third trigger.\<close>

lemma burst_state:
  assumes idle: "chatGPTCallStates s" "\<not> isWaiting (callState s)"
      "inFlightCalls s = []" "waitTimeouts s = []"
    and A: "trim A \<noteq> []" and C: "trim C \<noteq> []" and k: "k \<le> 2"
    and tr: "tr = Trigger t0 A False
               # take k [Trigger (t0 + 50) B False, Trigger (t0 + 100) C False]
               @ [CallReturns tc]
               @ drop k [Trigger (t0 + 50) B False, Trigger (t0 + 100) C False]"
  shows "downstreamCalls (coalescerRun s tr) = downstreamCalls s @ [(t0, trim A)]
     \<and> inFlightCalls (coalescerRun s tr) = []
     \<and> waitTimeouts (coalescerRun s tr) = [tc + waitTime]
     \<and> chatGPTCallStates (coalescerRun s tr)
     \<and> pendingInput (callState (coalescerRun s tr)) = Some (trim C)"
proof -
  let ?s1 = "triggerChatGPTWithWait t0 A False s"
  have s1: "chatGPTCallStates ?s1" "isWaiting (callState ?s1)" "inFlightCalls ?s1 = [trim A]"
      "waitTimeouts ?s1 = []" "downstreamCalls ?s1 = downstreamCalls s @ [(t0, trim A)]"
    using idle A by (simp_all add: trigger_idle)
  from k consider "k = 0" | "k = 1" | "k = 2" by linarith
  then show ?thesis
  proof cases
    case 1
    let ?s2 = "callReturns tc ?s1"
    let ?s3 = "triggerChatGPTWithWait (t0 + 50) B False ?s2"
    let ?s4 = "triggerChatGPTWithWait (t0 + 100) C False ?s3"
    have r: "coalescerRun s tr = ?s4" unfolding tr 1 by (simp add: run_Cons run_Nil)
    have s2: "chatGPTCallStates ?s2" "isWaiting (callState ?s2)" "inFlightCalls ?s2 = []"
        "waitTimeouts ?s2 = [tc + waitTime]" "downstreamCalls ?s2 = downstreamCalls s @ [(t0, trim A)]"
      using returns_while_waiting[OF s1(3) s1(4), of tc] s1 by simp_all
    have s3: "chatGPTCallStates ?s3" "isWaiting (callState ?s3)" "inFlightCalls ?s3 = []"
        "waitTimeouts ?s3 = [tc + waitTime]" "downstreamCalls ?s3 = downstreamCalls s @ [(t0, trim A)]"
      using trigger_while_waiting[OF s2(1) s2(2), of "t0 + 50" B] s2 by simp_all
    show ?thesis unfolding r
      using trigger_while_waiting[OF s3(1) s3(2), of "t0 + 100" C] s3 C by simp
  next
    case 2
    let ?s2 = "triggerChatGPTWithWait (t0 + 50) B False ?s1"
    let ?s3 = "callReturns tc ?s2"
    let ?s4 = "triggerChatGPTWithWait (t0 + 100) C False ?s3"
    have r: "coalescerRun s tr = ?s4" unfolding tr 2 by (simp add: run_Cons run_Nil)
    have s2: "chatGPTCallStates ?s2" "isWaiting (callState ?s2)" "inFlightCalls ?s2 = [trim A]"
        "waitTimeouts ?s2 = []" "downstreamCalls ?s2 = downstreamCalls s @ [(t0, trim A)]"
      using trigger_while_waiting[OF s1(1) s1(2), of "t0 + 50" B] s1 by simp_all
    have s3: "chatGPTCallStates ?s3" "isWaiting (callState ?s3)" "inFlightCalls ?s3 = []"
        "waitTimeouts ?s3 = [tc + waitTime]" "downstreamCalls ?s3 = downstreamCalls s @ [(t0, trim A)]"
      using returns_while_waiting[OF s2(3) s2(4), of tc] s2 by simp_all
    show ?thesis unfolding r
      using trigger_while_waiting[OF s3(1) s3(2), of "t0 + 100" C] s3 C by simp
  next
    case 3
    let ?s2 = "triggerChatGPTWithWait (t0 + 50) B False ?s1"
    let ?s3 = "triggerChatGPTWithWait (t0 + 100) C False ?s2"
    let ?s4 = "callReturns tc ?s3"
    have r: "coalescerRun s tr = ?s4" unfolding tr 3 by (simp add: run_Cons run_Nil)
    have s2: "chatGPTCallStates ?s2" "isWaiting (callState ?s2)" "inFlightCalls ?s2 = [trim A]"
        "waitTimeouts ?s2 = []" "downstreamCalls ?s2 = downstreamCalls s @ [(t0, trim A)]"
      using trigger_while_waiting[OF s1(1) s1(2), of "t0 + 50" B] s1 by simp_all
    have s3: "chatGPTCallStates ?s3" "isWaiting (callState ?s3)" "inFlightCalls ?s3 = [trim A]"
        "waitTimeouts ?s3 = []" "downstreamCalls ?s3 = downstreamCalls s @ [(t0, trim A)]"
        "pendingInput (callState ?s3) = Some (trim C)"
      using trigger_while_waiting[OF s2(1) s2(2), of "t0 + 100" C] s2 C by simp_all
    show ?thesis unfolding r
      using returns_while_waiting[OF s3(3) s3(4), of tc] s3 by simp
  qed
qed

text \<open>
  C3. On a connected session whose coalescer is idle, three normal triggers with inputs
  A, B, C at \<open>t0\<close>, \<open>t0 + 50\<close> and \<open>t0 + 100\<close>, A and C not blank, with the downstream call
  for A returning at any point after the first trigger: the first trigger starts one
  downstream call at \<open>t0\<close> with (the trimmed) A, and the burst starts no other. The wait
  window of 400 ms opens when that call returns; the timer cannot fire before it has
  elapsed, and when it fires exactly one further call starts, with (the trimmed) C.
  B is never passed on.
\<close>

theorem burst_of_three_triggers:
  assumes "chatGPTCallStates s" and "\<not> isWaiting (callState s)"
    and "inFlightCalls s = []" and "waitTimeouts s = []"
    and "trim A \<noteq> []" and "trim C \<noteq> []" and "k \<le> 2"
    and "tr = Trigger t0 A False
               # take k [Trigger (t0 + 50) B False, Trigger (t0 + 100) C False]
               @ [CallReturns tc]
               @ drop k [Trigger (t0 + 50) B False, Trigger (t0 + 100) C False]"
  shows "downstreamCalls (coalescerRun s [Trigger t0 A False]) = downstreamCalls s @ [(t0, trim A)]
     \<and> downstreamCalls (coalescerRun s tr) = downstreamCalls s @ [(t0, trim A)]
     \<and> waitTimeouts (coalescerRun s tr) = [tc + 400]
     \<and> (tf < tc + 400 \<longrightarrow> coalescerRun s (tr @ [WaitTimerFires tf]) = coalescerRun s tr)
     \<and> (tc + 400 \<le> tf \<longrightarrow>
          downstreamCalls (coalescerRun s (tr @ [WaitTimerFires tf]))
            = downstreamCalls s @ [(t0, trim A), (tf, trim C)]
          \<and> inFlightCalls (coalescerRun s (tr @ [WaitTimerFires tf])) = [trim C]
          \<and> pendingInput (callState (coalescerRun s (tr @ [WaitTimerFires tf]))) = None)"
proof -
  let ?w = "coalescerRun s tr"
  have w: "downstreamCalls ?w = downstreamCalls s @ [(t0, trim A)]"
      "inFlightCalls ?w = []" "waitTimeouts ?w = [tc + waitTime]"
      "chatGPTCallStates ?w" "pendingInput (callState ?w) = Some (trim C)"
    using burst_state[OF assms] by simp_all
  have 1: "downstreamCalls (coalescerRun s [Trigger t0 A False]) = downstreamCalls s @ [(t0, trim A)]"
    using assms(1,2,5) by (simp add: run_Cons run_Nil trigger_idle)
  have 3: "waitTimeouts ?w = [tc + 400]" using w(3) by (simp add: waitTime_def)
  have 4: "tf < tc + 400 \<longrightarrow> coalescerRun s (tr @ [WaitTimerFires tf]) = ?w"
    using fires_early[OF 3, of tf] by (simp add: run_snoc)
  have 5: "tc + 400 \<le> tf \<longrightarrow>
          downstreamCalls (coalescerRun s (tr @ [WaitTimerFires tf]))
            = downstreamCalls s @ [(t0, trim A), (tf, trim C)]
          \<and> inFlightCalls (coalescerRun s (tr @ [WaitTimerFires tf])) = [trim C]
          \<and> pendingInput (callState (coalescerRun s (tr @ [WaitTimerFires tf]))) = None"
  proof
    assume le: "tc + 400 \<le> tf"
    have f: "waitTimerFires tf ?w =
       ?w\<lparr>waitTimeouts := [],
         callState := (callState ?w)\<lparr>isWaiting := True, lastCallTime := tf, pendingInput := None\<rparr>,
         inFlightCalls := inFlightCalls ?w @ [trim C],
         downstreamCalls := downstreamCalls ?w @ [(tf, trim C)]\<rparr>"
      by (rule fires_replays[OF 3 le w(4) w(5) assms(6) trim_idem])
    show "downstreamCalls (coalescerRun s (tr @ [WaitTimerFires tf]))
            = downstreamCalls s @ [(t0, trim A), (tf, trim C)]
          \<and> inFlightCalls (coalescerRun s (tr @ [WaitTimerFires tf])) = [trim C]
          \<and> pendingInput (callState (coalescerRun s (tr @ [WaitTimerFires tf]))) = None"
      unfolding run_snoc coalescerStep.simps f using w by simp
  qed
  show ?thesis using 1 w(1) 3 4 5 by blast
qed

theorem burst_of_three_triggers_witness:
  "chatGPTCallStates onConnection \<and> \<not> isWaiting (callState onConnection)
   \<and> inFlightCalls onConnection = [] \<and> waitTimeouts onConnection = []
   \<and> trim ''A'' \<noteq> [] \<and> trim ''C'' \<noteq> [] \<and> (1::nat) \<le> 2
   \<and> downstreamCalls (coalescerRun onConnection
        [Trigger 1000 ''A'' False, Trigger 1050 ''B'' False, CallReturns 1070,
         Trigger 1100 ''C'' False]) = [(1000, ''A'')]
   \<and> coalescerRun onConnection
        [Trigger 1000 ''A'' False, Trigger 1050 ''B'' False, CallReturns 1070,
         Trigger 1100 ''C'' False, WaitTimerFires 1469]
      = coalescerRun onConnection
        [Trigger 1000 ''A'' False, Trigger 1050 ''B'' False, CallReturns 1070,
         Trigger 1100 ''C'' False]
   \<and> downstreamCalls (coalescerRun onConnection
        [Trigger 1000 ''A'' False, Trigger 1050 ''B'' False, CallReturns 1070,
         Trigger 1100 ''C'' False, WaitTimerFires 1470]) = [(1000, ''A''), (1470, ''C'')]"
proof -
  have h: "chatGPTCallStates onConnection" "\<not> isWaiting (callState onConnection)"
      "inFlightCalls onConnection = []" "waitTimeouts onConnection = []"
    by (simp_all add: onConnection_def)
  have t: "trim ''A'' \<noteq> []" "trim ''C'' \<noteq> []" "trim ''A'' = ''A''" "trim ''C'' = ''C''"
    by (simp_all add: trim_def isWhiteSpace_def)
  have k: "(1::nat) \<le> 2" by simp
  have d0: "downstreamCalls onConnection = []" by (simp add: onConnection_def)
  have tr: "[Trigger 1000 ''A'' False, Trigger 1050 ''B'' False, CallReturns 1070, Trigger 1100 ''C'' False]
      = Trigger 1000 ''A'' False
               # take 1 [Trigger (1000 + 50) ''B'' False, Trigger (1000 + 100) ''C'' False]
               @ [CallReturns 1070]
               @ drop 1 [Trigger (1000 + 50) ''B'' False, Trigger (1000 + 100) ''C'' False]"
    by simp
  note T1 = burst_of_three_triggers[OF h t(1,2) k tr, where tf = 1469]
  note T2 = burst_of_three_triggers[OF h t(1,2) k tr, where tf = 1470]
  from T1 have a: "downstreamCalls (coalescerRun onConnection
        [Trigger 1000 ''A'' False, Trigger 1050 ''B'' False, CallReturns 1070,
         Trigger 1100 ''C'' False]) = [(1000, ''A'')]"
    by (simp add: d0 t)
  from T1 have b: "coalescerRun onConnection
        [Trigger 1000 ''A'' False, Trigger 1050 ''B'' False, CallReturns 1070,
         Trigger 1100 ''C'' False, WaitTimerFires 1469]
      = coalescerRun onConnection
        [Trigger 1000 ''A'' False, Trigger 1050 ''B'' False, CallReturns 1070,
         Trigger 1100 ''C'' False]"
    by simp
  from T2 have c: "downstreamCalls (coalescerRun onConnection
        [Trigger 1000 ''A'' False, Trigger 1050 ''B'' False, CallReturns 1070,
         Trigger 1100 ''C'' False, WaitTimerFires 1470]) = [(1000, ''A''), (1470, ''C'')]"
    by (simp add: d0 t)
  show ?thesis using h t(1,2) k a b c by blast
qed

subsection \<open>Teardown\<close>

text \<open>
  C9 fails on the code. The disconnect handler deletes four map entries (audio buffer,
  history, call state, version) and nothing else: it cancels no timer, aborts no
  controller, and leaves the entries of \<^verbatim>\<open>conversationPreferences\<close>, \<^verbatim>\<open>lastInputSource\<close>,
  \<^verbatim>\<open>controllersBySocket\<close> and \<^verbatim>\<open>sttDebounceTimers\<close> in place. A socket that sends one
  non-final audio chunk at 1000 ms and disconnects leaves its debounce timer armed for
  1350 ms; a queued trigger leaves its wait-window timer armed, and that timer still
  runs its callback after the disconnect; a turn begun before the disconnect leaves its
  controller registered and not aborted, and on completing stores a history for the
  socket that is gone.
\<close>

theorem disconnect_leaves_timers_and_handles:
  "sttTimeouts (onDisconnect s) = sttTimeouts s
   \<and> waitTimeouts (onDisconnect s) = waitTimeouts s
   \<and> sttDebounceTimers (onDisconnect s) = sttDebounceTimers s
   \<and> controllersBySocket (onDisconnect s) = controllersBySocket s
   \<and> aborted (onDisconnect s) = aborted s
   \<and> conversationPreferences (onDisconnect s) = conversationPreferences s
   \<and> lastInputSource (onDisconnect s) = lastInputSource s
   \<and> sttTimeouts (onDisconnect (onAudioStreamPartial 1000 [1, 2, 3] onConnection)) = [(0, 1350)]
   \<and> sttDebounceTimers (onDisconnect (onAudioStreamPartial 1000 [1, 2, 3] onConnection)) = Some 0
   \<and> conversationPreferences (onDisconnect (onAudioStreamPartial 1000 [1, 2, 3] onConnection))
       = Some defaultPreferences
   \<and> waitTimeouts (coalescerRun onConnection [Trigger 0 ''hello there'' True, SocketDisconnects])
       = [400]
   \<and> isWaiting (callState (coalescerRun onConnection
        [Trigger 0 ''hello there'' True, SocketDisconnects]))
   \<and> \<not> isWaiting (callState (coalescerRun onConnection
        [Trigger 0 ''hello there'' True, SocketDisconnects, WaitTimerFires 400]))
   \<and> controllersBySocket (onDisconnect (snd (snd (snd (beginTurn quietEnv ''hi'' onConnection)))))
       = Some \<lparr>llm = Some 0, stt = None, tts = None\<rparr>
   \<and> aborted (onDisconnect (snd (snd (snd (beginTurn quietEnv ''hi'' onConnection))))) = []
   \<and> conversationHistory
        (snd (processWithChatGPT (quietEnv\<lparr>createAwait := [Disconnect]\<rparr>) ''hi'' onConnection))
       = Some [\<lparr>role = User, content = ''hi'', timestamp = 1000\<rparr>,
               \<lparr>role = Assistant, content = ''One. Two.'', timestamp = 2000\<rparr>]"
proof -
  have general: "sttTimeouts (onDisconnect s) = sttTimeouts s
   \<and> waitTimeouts (onDisconnect s) = waitTimeouts s
   \<and> sttDebounceTimers (onDisconnect s) = sttDebounceTimers s
   \<and> controllersBySocket (onDisconnect s) = controllersBySocket s
   \<and> aborted (onDisconnect s) = aborted s
   \<and> conversationPreferences (onDisconnect s) = conversationPreferences s
   \<and> lastInputSource (onDisconnect s) = lastInputSource s"
    by (simp add: onDisconnect_def)
  have audio: "sttTimeouts (onDisconnect (onAudioStreamPartial 1000 [1, 2, 3] onConnection)) = [(0, 1350)]
   \<and> sttDebounceTimers (onDisconnect (onAudioStreamPartial 1000 [1, 2, 3] onConnection)) = Some 0
   \<and> conversationPreferences (onDisconnect (onAudioStreamPartial 1000 [1, 2, 3] onConnection))
       = Some defaultPreferences"
    by (simp add: onDisconnect_def onAudioStreamPartial_def schedulePartialTranscription_def
        onConnection_def Let_def)
  have wait: "waitTimeouts (coalescerRun onConnection [Trigger 0 ''hello there'' True, SocketDisconnects])
       = [400]
   \<and> isWaiting (callState (coalescerRun onConnection
        [Trigger 0 ''hello there'' True, SocketDisconnects]))
   \<and> \<not> isWaiting (callState (coalescerRun onConnection
        [Trigger 0 ''hello there'' True, SocketDisconnects, WaitTimerFires 400]))"
    by (simp add: coalescer_eval)
  have ctl: "controllersBySocket (onDisconnect (snd (snd (snd (beginTurn quietEnv ''hi'' onConnection)))))
       = Some \<lparr>llm = Some 0, stt = None, tts = None\<rparr>
   \<and> aborted (onDisconnect (snd (snd (snd (beginTurn quietEnv ''hi'' onConnection))))) = []"
    by (simp add: beginTurn_def onDisconnect_def onConnection_def Let_def emit_def noControllers_def)
  have hist: "conversationHistory
        (snd (processWithChatGPT (quietEnv\<lparr>createAwait := [Disconnect]\<rparr>) ''hi'' onConnection))
       = Some [\<lparr>role = User, content = ''hi'', timestamp = 1000\<rparr>,
               \<lparr>role = Assistant, content = ''One. Two.'', timestamp = 2000\<rparr>]"
    by (simp add: turn_eval)
  show ?thesis using general audio wait ctl hist by blast
qed

end
